theory Spec2Isabelle
  imports Complex_Main "HOL-Library.Sublist"
begin

section \<open>Data model of the gold dashboard (src/lib/gold.ts)\<close>

text \<open>
  JavaScript numbers are modelled as follows: epoch-millisecond times and day counts are
  \<open>int\<close> (they stay far below \<open>2 ^ 53\<close>, where doubles are exact). Prices are \<open>real\<close> in
  the definitions of the pipeline, which compute in exact arithmetic; the section on
  binary64 arithmetic gives the rounding of doubles and the two price formulas as the code
  computes them, rounding after every operation.
\<close>

definition DAY_MS :: int where
  "DAY_MS = 24 * 60 * 60 * 1000"

definition GRAMS_PER_OUNCE :: real where
  "GRAMS_PER_OUNCE = 31.1034768"

datatype GoldRangeKind = KindRecent | KindMonth | KindYear

record GoldRangeConfig =
  key :: string
  label :: string
  kind :: GoldRangeKind
  days :: "int option"
  year :: "string option"
  month :: "string option"

definition recentRange :: GoldRangeConfig where
  "recentRange =
     \<lparr>key = ''recent'', label = ''Recent'', kind = KindRecent,
      days = Some 14, year = None, month = None\<rparr>"

type_synonym GoldUnit = string

record UnitOption =
  unitValue :: GoldUnit
  unitLabel :: string
  shortLabel :: string
  suffix :: string

definition goldUnits :: "UnitOption list" where
  "goldUnits =
     [\<lparr>unitValue = ''oz'', unitLabel = ''Ounce'', shortLabel = ''oz'', suffix = ''USD/oz''\<rparr>,
      \<lparr>unitValue = ''g'', unitLabel = ''Gram'', shortLabel = ''g'', suffix = ''USD/g''\<rparr>]"

record GoldAnchor =
  date :: string
  "value" :: real

record GoldPoint = GoldAnchor +
  time :: int

record GoldStats =
  low :: real
  high :: real

section \<open>Query parameters: \<open>resolveUnit\<close> and \<open>resolveRange\<close>\<close>

text \<open>A query parameter has the TypeScript type \<open>string | string[] | undefined\<close>.\<close>

datatype QueryParam = Undefined | Single string | Many "string list"

text \<open>\<open>Array.isArray(input) ? input[0] : input\<close>; the first element of an empty array is
  \<open>undefined\<close>.\<close>

fun firstValue :: "QueryParam \<Rightarrow> string option" where
  "firstValue Undefined = None"
| "firstValue (Single s) = Some s"
| "firstValue (Many []) = None"
| "firstValue (Many (s # rest)) = Some s"

text \<open>\<open>resolveUnit\<close> of src/lib/gold.ts; the copy in the dashboard component differs
  only in the name of the bound variable.\<close>

definition resolveUnit :: "QueryParam \<Rightarrow> GoldUnit" where
  "resolveUnit input =
     (let v = firstValue input;
          match = find (\<lambda>unit. Some (unitValue unit) = v) goldUnits
      in case match of Some unit \<Rightarrow> unitValue unit | None \<Rightarrow> ''oz'')"

definition resolveUnit_dashboard :: "QueryParam \<Rightarrow> GoldUnit" where
  "resolveUnit_dashboard input =
     (let v = firstValue input;
          match = find (\<lambda>u. Some (unitValue u) = v) goldUnits
      in case match of Some u \<Rightarrow> unitValue u | None \<Rightarrow> ''oz'')"

text \<open>\<open>String.prototype.toLowerCase\<close> on the ASCII letters; every other character is kept.\<close>

definition toLowerChar :: "char \<Rightarrow> char" where
  "toLowerChar c =
     (case map_of (zip ''ABCDEFGHIJKLMNOPQRSTUVWXYZ'' ''abcdefghijklmnopqrstuvwxyz'') c of
        Some l \<Rightarrow> l
      | None \<Rightarrow> c)"

definition toLowerCase :: "string \<Rightarrow> string" where
  "toLowerCase s = map toLowerChar s"

definition startsWith :: "string \<Rightarrow> string \<Rightarrow> bool" where
  "startsWith s p = (take (length p) s = p)"

text \<open>\<open>s.split(sep)\<close> for a one-character separator: the empty string gives one empty field.\<close>

fun split :: "char \<Rightarrow> string \<Rightarrow> string list" where
  "split sep [] = [[]]"
| "split sep (c # cs) =
     (if c = sep then [] # split sep cs
      else (case split sep cs of
              [] \<Rightarrow> [[c]]
            | w # ws \<Rightarrow> (c # w) # ws))"

text \<open>Reading an array element that may be missing (\<open>undefined\<close>).\<close>

definition elemAt :: "'a list \<Rightarrow> nat \<Rightarrow> 'a option" where
  "elemAt xs i = (if i < length xs then Some (xs ! i) else None)"

datatype JsError =
  RangeError \<comment> \<open>thrown by \<open>Intl.DateTimeFormat.format\<close> on an invalid date\<close>
| GoldSeriesFileIsEmpty \<comment> \<open>\<open>Error("Gold series file is empty")\<close>\<close>
| GoldDataIsEmpty \<comment> \<open>\<open>Error("Gold data is empty")\<close>\<close>
| NoPointsForSelectedRange \<comment> \<open>\<open>Error("MetalpriceAPI returned no points for selected range")\<close>\<close>

text \<open>
  \<open>resolveRange\<close>. The label of a month range comes from the platform:
  \<open>monthYearFormatter.format(new Date(Date.UTC(Number(year), Number(month) - 1, 1)))\<close>.
  It is the parameter \<open>fmt\<close>, which is \<open>None\<close> where \<open>Intl.DateTimeFormat.format\<close>
  throws a \<open>RangeError\<close> (an invalid date, as for a year that is not a number).
\<close>

definition resolveRange ::
  "(string \<Rightarrow> string \<Rightarrow> string option) \<Rightarrow> QueryParam \<Rightarrow> JsError + GoldRangeConfig" where
  "resolveRange fmt input =
     (case map_option toLowerCase (firstValue input) of
        None \<Rightarrow> Inr recentRange
      | Some normalized \<Rightarrow>
          if normalized = [] \<or> normalized = key recentRange then Inr recentRange
          else
            (let parts = split (CHR ''-'') normalized;
                 y = elemAt parts 1;
                 m = elemAt parts 2
             in if startsWith normalized ''month-''
                   \<and> map_option length y = Some 4 \<and> map_option length m = Some 2
                then (case fmt (the y) (the m) of
                        None \<Rightarrow> Inl RangeError
                      | Some l \<Rightarrow>
                          Inr \<lparr>key = normalized, label = l, kind = KindMonth,
                               days = None, year = y, month = m\<rparr>)
                else if startsWith normalized ''year-'' \<and> map_option length y = Some 4
                then Inr \<lparr>key = normalized, label = the y, kind = KindYear,
                          days = None, year = y, month = None\<rparr>
                else Inr recentRange))"

section \<open>Unit conversion\<close>

text \<open>\<open>convertPrice\<close> of the live-API module divides; \<open>getGoldData\<close> multiplies every point
  by \<open>unitMultiplier\<close>.\<close>

definition convertPrice :: "real \<Rightarrow> GoldUnit \<Rightarrow> real" where
  "convertPrice pricePerOz unit = (if unit = ''g'' then pricePerOz / GRAMS_PER_OUNCE else pricePerOz)"

definition unitMultiplier :: "GoldUnit \<Rightarrow> real" where
  "unitMultiplier unit = (if unit = ''g'' then 1 / GRAMS_PER_OUNCE else 1)"

definition toUnitPoint :: "GoldUnit \<Rightarrow> GoldPoint \<Rightarrow> GoldPoint" where
  "toUnitPoint unit point = point\<lparr>value := value point * unitMultiplier unit\<rparr>"

section \<open>Statistics: \<open>computeHighLow\<close>\<close>

text \<open>The \<open>for ... of\<close> loop over the points, with the pair \<open>(low, high)\<close> as its state.\<close>

fun highLowLoop :: "real \<times> real \<Rightarrow> GoldPoint list \<Rightarrow> real \<times> real" where
  "highLowLoop (lo, hi) [] = (lo, hi)"
| "highLowLoop (lo, hi) (point # rest) =
     highLowLoop
       (if value point < lo then value point else lo,
        if value point > hi then value point else hi) rest"

definition computeHighLow :: "GoldPoint list \<Rightarrow> GoldStats option" where
  "computeHighLow points =
     (case points of
        [] \<Rightarrow> None
      | p0 # _ \<Rightarrow>
          (case highLowLoop (value p0, value p0) points of
             (lo, hi) \<Rightarrow> Some \<lparr>low = lo, high = hi\<rparr>))"

section \<open>The densifier: \<open>buildSeriesFromAnchors\<close>\<close>

text \<open>\<open>Math.round\<close>: the nearest integer, a half rounded towards plus infinity.\<close>

definition Math_round :: "real \<Rightarrow> int" where
  "Math_round x = \<lfloor>x + 1 / 2\<rfloor>"

text \<open>The interpolation formula of the inner loop.\<close>

definition interpolate :: "real \<Rightarrow> real \<Rightarrow> real \<Rightarrow> real" where
  "interpolate startValue endValue ratio = startValue + (endValue - startValue) * ratio"

text \<open>
  Two platform functions are parameters of the model: \<open>parse\<close> is \<open>Date.parse\<close>, with
  \<open>None\<close> for \<open>NaN\<close>, and \<open>isoDate\<close> is \<open>new Date(time).toISOString().slice(0, 10)\<close>.

  The inner loop \<open>for (let day = 0; day <= daySpan; day += 1)\<close>, with its \<open>continue\<close> on
  the first day of every pair but the first.
\<close>

function dayLoop ::
  "(int \<Rightarrow> string) \<Rightarrow> nat \<Rightarrow> GoldAnchor \<Rightarrow> GoldAnchor \<Rightarrow> int \<Rightarrow> int \<Rightarrow> int \<Rightarrow> GoldPoint list" where
  "dayLoop isoDate index startA endA startTime daySpan day =
     (if day \<le> daySpan then
        (if index > 0 \<and> day = 0 then dayLoop isoDate index startA endA startTime daySpan (day + 1)
         else
           (let ratio = (if daySpan = 0 then 0 else real_of_int day / real_of_int daySpan);
                v = interpolate (value startA) (value endA) ratio;
                t = startTime + day * DAY_MS;
                d = isoDate t
            in \<lparr>date = d, value = v, time = t\<rparr>
               # dayLoop isoDate index startA endA startTime daySpan (day + 1)))
      else [])"
  by pat_completeness auto
termination
  by (relation "measure (\<lambda>(isoDate, index, startA, endA, startTime, daySpan, day). nat (daySpan + 1 - day))")
     auto

text \<open>\<open>Date.parse(anchor.date)\<close> for an anchor whose date parses.\<close>

definition anchorTime :: "(string \<Rightarrow> int option) \<Rightarrow> GoldAnchor \<Rightarrow> int" where
  "anchorTime parse a = the (parse (date a))"

text \<open>The body of the outer loop for one \<open>index\<close>: the points of the pair of anchors
  \<open>sorted[index]\<close>, \<open>sorted[index + 1]\<close>.\<close>

definition pairPoints ::
  "(string \<Rightarrow> int option) \<Rightarrow> (int \<Rightarrow> string) \<Rightarrow> GoldAnchor list \<Rightarrow> nat \<Rightarrow> GoldPoint list" where
  "pairPoints parse isoDate sortedA index =
     (let startA = sortedA ! index;
          endA = sortedA ! (index + 1);
          startTime = anchorTime parse startA;
          endTime = anchorTime parse endA;
          daySpan = max 1 (Math_round (real_of_int (endTime - startTime) / real_of_int DAY_MS))
      in dayLoop isoDate index startA endA startTime daySpan 0)"

text \<open>The outer loop \<open>for (let index = 0; index < sorted.length - 1; index += 1)\<close>.\<close>

function pairLoop ::
  "(string \<Rightarrow> int option) \<Rightarrow> (int \<Rightarrow> string) \<Rightarrow> GoldAnchor list \<Rightarrow> nat \<Rightarrow> GoldPoint list" where
  "pairLoop parse isoDate sortedA index =
     (if index + 1 < length sortedA
      then pairPoints parse isoDate sortedA index @ pairLoop parse isoDate sortedA (index + 1)
      else [])"
  by pat_completeness auto
termination
  by (relation "measure (\<lambda>(parse, isoDate, sortedA, index). length sortedA - index)") auto

text \<open>The loops are unfolded by hand in the proofs.\<close>

declare dayLoop.simps [simp del] pairLoop.simps [simp del]

text \<open>
  \<open>buildSeriesFromAnchors\<close>. \<open>Array.prototype.sort\<close> is stable, as \<open>sort_key\<close> is. When a
  date does not parse, its time is \<open>NaN\<close>, the comparator returns \<open>NaN\<close> and the order of
  the sorted array is left to the implementation: such a list is outside the model, which
  returns \<open>None\<close> for it.
\<close>

definition buildSeriesFromAnchors ::
  "(string \<Rightarrow> int option) \<Rightarrow> (int \<Rightarrow> string) \<Rightarrow> GoldAnchor list \<Rightarrow> GoldPoint list option" where
  "buildSeriesFromAnchors parse isoDate anchors =
     (if \<exists>a \<in> set anchors. parse (date a) = None then None
      else
        (let sortedA = sort_key (anchorTime parse) anchors
         in if length sortedA = 1
            then Some [\<lparr>date = date (sortedA ! 0), value = value (sortedA ! 0),
                        time = anchorTime parse (sortedA ! 0)\<rparr>]
            else Some (pairLoop parse isoDate sortedA 0)))"

section \<open>The range selector: \<open>sliceRange\<close>\<close>

text \<open>Truthiness of an optional string: present and not empty.\<close>

definition truthy :: "string option \<Rightarrow> bool" where
  "truthy s = (case s of None \<Rightarrow> False | Some t \<Rightarrow> t \<noteq> [])"

definition sliceRange :: "GoldPoint list \<Rightarrow> GoldRangeConfig \<Rightarrow> GoldPoint \<Rightarrow> GoldPoint list" where
  "sliceRange points rangeCfg latest =
     (if length points = 0 then []
      else if kind rangeCfg = KindRecent then
        (let rangeDays = (case days rangeCfg of Some d \<Rightarrow> d | None \<Rightarrow> 14);
             cutoff = time latest - rangeDays * DAY_MS;
             sliced = filter (\<lambda>point. time point \<ge> cutoff) points
         in if length sliced \<noteq> 0 then sliced else points)
      else if kind rangeCfg = KindMonth \<and> truthy (year rangeCfg) \<and> truthy (month rangeCfg) then
        (let pre = the (year rangeCfg) @ ''-'' @ the (month rangeCfg);
             sliced = filter (\<lambda>point. startsWith (date point) pre) points
         in if length sliced \<noteq> 0 then sliced else points)
      else if kind rangeCfg = KindYear \<and> truthy (year rangeCfg) then
        (let y = the (year rangeCfg);
             sliced = filter (\<lambda>point. startsWith (date point) y) points
         in if length sliced \<noteq> 0 then sliced else points)
      else points)"

section \<open>Statistics: \<open>computeChange\<close>\<close>

text \<open>A division of doubles: a zero divisor gives an infinity or \<open>NaN\<close>, never an error.\<close>

datatype JsNumber = Finite real | NonFinite

definition js_div :: "real \<Rightarrow> real \<Rightarrow> JsNumber" where
  "js_div a b = (if b = 0 then NonFinite else Finite (a / b))"

text \<open>The backward scan \<open>for (let index = points.length - 1; index >= 0; index -= 1)\<close>;
  the third argument is \<open>index + 1\<close>.\<close>

fun scanBack :: "GoldPoint list \<Rightarrow> int \<Rightarrow> nat \<Rightarrow> GoldPoint option" where
  "scanBack points target 0 = None"
| "scanBack points target (Suc index) =
     (if time (points ! index) \<le> target then Some (points ! index)
      else scanBack points target index)"

definition computeChange :: "GoldPoint list \<Rightarrow> int \<Rightarrow> JsNumber option" where
  "computeChange points daysBack =
     (if length points = 0 then None
      else
        (let latest = points ! (length points - 1);
             target = time latest - daysBack * DAY_MS
         in case scanBack points target (length points) of
              None \<Rightarrow> None
            | Some prior \<Rightarrow> Some (js_div (value latest - value prior) (value prior))))"

section \<open>The assembler: \<open>getGoldData\<close>\<close>

record GoldChanges =
  day1 :: "JsNumber option"
  day7 :: "JsNumber option"
  day30 :: "JsNumber option"

text \<open>The snapshot file \<open>@/data/gold-series.json\<close> is a parameter; a missing field is the
  empty string or the empty list, which the code treats alike.\<close>

record GoldSeriesFile =
  source :: string
  updatedAt :: string
  anchors :: "GoldAnchor list"

record GoldData =
  latest :: GoldPoint
  rangeConfig :: GoldRangeConfig
  unit :: GoldUnit
  unitSuffix :: string
  sourceLabel :: string
  rangePoints :: "GoldPoint list"
  rangeStats :: GoldStats
  yearStats :: GoldStats
  lastUpdated :: string
  changes :: GoldChanges
  pointsCount :: nat

definition loadSeriesFile :: "GoldSeriesFile \<Rightarrow> JsError + GoldSeriesFile" where
  "loadSeriesFile parsed =
     (if length (anchors parsed) = 0 then Inl GoldSeriesFileIsEmpty
      else Inr \<lparr>source = (if source parsed \<noteq> [] then source parsed else ''Local snapshot''),
                updatedAt = (if updatedAt parsed \<noteq> [] then updatedAt parsed
                             else date (anchors parsed ! (length (anchors parsed) - 1))),
                anchors = anchors parsed\<rparr>)"

text \<open>\<open>getGoldData\<close>; \<open>None\<close> stands for a snapshot with a date that does not parse, which
  the model of the densifier leaves out.\<close>

definition getGoldData ::
  "(string \<Rightarrow> int option) \<Rightarrow> (int \<Rightarrow> string) \<Rightarrow> GoldSeriesFile \<Rightarrow> GoldRangeConfig \<Rightarrow> GoldUnit
     \<Rightarrow> (JsError + GoldData) option" where
  "getGoldData parse isoDate parsed rangeCfg u =
     (case loadSeriesFile parsed of
        Inl e \<Rightarrow> Some (Inl e)
      | Inr seriesFile \<Rightarrow>
          (case buildSeriesFromAnchors parse isoDate (anchors seriesFile) of
             None \<Rightarrow> None
           | Some series \<Rightarrow>
               (let unitMeta = (case find (\<lambda>option. unitValue option = u) goldUnits of
                                  Some option \<Rightarrow> option
                                | None \<Rightarrow> goldUnits ! 0);
                    points = map (toUnitPoint u) series
                in if length points = 0 then Some (Inl GoldDataIsEmpty)
                   else
                     (let latestPoint = points ! (length points - 1);
                          updated = (if updatedAt seriesFile \<noteq> [] then updatedAt seriesFile
                                     else date latestPoint);
                          rangePts = sliceRange points rangeCfg latestPoint;
                          yearPts = sliceRange points (recentRange\<lparr>days := Some 365\<rparr>) latestPoint;
                          rStats = (case computeHighLow rangePts of
                                      Some st \<Rightarrow> st
                                    | None \<Rightarrow> \<lparr>low = value latestPoint, high = value latestPoint\<rparr>);
                          yStats = (case computeHighLow yearPts of
                                      Some st \<Rightarrow> st
                                    | None \<Rightarrow> rStats)
                      in Some (Inr
                           \<lparr>latest = latestPoint, rangeConfig = rangeCfg, unit = u,
                            unitSuffix = suffix unitMeta, sourceLabel = source seriesFile,
                            rangePoints = rangePts, rangeStats = rStats, yearStats = yStats,
                            lastUpdated = updated,
                            changes = \<lparr>day1 = computeChange points 1,
                                       day7 = computeChange points 7,
                                       day30 = computeChange points 30\<rparr>,
                            pointsCount = length rangePts\<rparr>)))))"

section \<open>The live-API series: the forward fill of \<open>fetchGoldSeries\<close>\<close>



text \<open>The loop over \<open>rawValues\<close> with \<open>lastKnown\<close> as its state.\<close>

fun fillLoop :: "real \<Rightarrow> real option list \<Rightarrow> real list" where
  "fillLoop lastKnown [] = []"
| "fillLoop lastKnown (Some v # rest) = v # fillLoop v rest"
| "fillLoop lastKnown (None # rest) = lastKnown # fillLoop lastKnown rest"

record OzPoint =
  ozDate :: string
  ozTime :: int
  pricePerOz :: real





section \<open>Binary64 arithmetic\<close>

text \<open>
  A finite double is the real number it denotes. \<open>toDouble\<close> rounds a real to the nearest
  double, a tie to the even significand; the operations of the code are the exact ones
  followed by this rounding, and a decimal literal denotes its nearest double. Overflow to
  an infinity is not modelled: prices are far from it.
\<close>

definition pow2 :: "int \<Rightarrow> real" where
  "pow2 e = (if 0 \<le> e then 2 ^ nat e else 1 / 2 ^ nat (- e))"

text \<open>The exponent \<open>e\<close> with \<open>2 ^ e \<le> m < 2 ^ (e + 1)\<close> of a positive \<open>m\<close>; the fuel covers
  every finite double.\<close>

fun binade :: "nat \<Rightarrow> real \<Rightarrow> int" where
  "binade 0 m = 0"
| "binade (Suc fuel) m =
     (if 2 \<le> m then binade fuel (m / 2) + 1
      else if m < 1 then binade fuel (m * 2) - 1
      else 0)"

definition roundEven :: "real \<Rightarrow> int" where
  "roundEven q =
     (let f = \<lfloor>q\<rfloor>;
          d = q - real_of_int f
      in if d < 1 / 2 then f else if 1 / 2 < d then f + 1 else if even f then f else f + 1)"

text \<open>A significand of 53 bits; below \<open>2 ^ - 1022\<close> the spacing stays that of the subnormals.\<close>

definition toDouble :: "real \<Rightarrow> real" where
  "toDouble x =
     (if x = 0 then 0
      else (let e = max (binade 1100 \<bar>x\<bar>) (- 1022);
                u = pow2 (e - 52)
            in real_of_int (roundEven (x / u)) * u))"

definition dadd :: "real \<Rightarrow> real \<Rightarrow> real" where
  "dadd a b = toDouble (a + b)"

definition dsub :: "real \<Rightarrow> real \<Rightarrow> real" where
  "dsub a b = toDouble (a - b)"

definition dmul :: "real \<Rightarrow> real \<Rightarrow> real" where
  "dmul a b = toDouble (a * b)"

definition ddiv :: "real \<Rightarrow> real \<Rightarrow> real" where
  "ddiv a b = toDouble (a / b)"

text \<open>The constant \<open>GRAMS_PER_OUNCE = 31.1034768\<close> as the double it is.\<close>

definition GRAMS_PER_OUNCE_double :: real where
  "GRAMS_PER_OUNCE_double = toDouble 31.1034768"

text \<open>\<open>getGoldData\<close>: \<open>unitMultiplier = unit === "g" ? 1 / GRAMS_PER_OUNCE : 1\<close> and
  \<open>point.value * unitMultiplier\<close>, in doubles.\<close>

definition unitMultiplier_double :: "GoldUnit \<Rightarrow> real" where
  "unitMultiplier_double u = (if u = ''g'' then ddiv 1 GRAMS_PER_OUNCE_double else 1)"

definition toUnit_double :: "real \<Rightarrow> GoldUnit \<Rightarrow> real" where
  "toUnit_double pointValue u = dmul pointValue (unitMultiplier_double u)"

text \<open>\<open>convertPrice\<close> of the live-API module, in doubles.\<close>

definition convertPrice_double :: "real \<Rightarrow> GoldUnit \<Rightarrow> real" where
  "convertPrice_double perOz u =
     (if u = ''g'' then ddiv perOz GRAMS_PER_OUNCE_double else perOz)"

text \<open>The interpolation formula \<open>start.value + (end.value - start.value) * ratio\<close>, in
  doubles.\<close>

definition interpolate_double :: "real \<Rightarrow> real \<Rightarrow> real \<Rightarrow> real" where
  "interpolate_double startValue endValue ratio =
     dadd startValue (dmul (dsub endValue startValue) ratio)"

text \<open>The densifier with its arithmetic on values in doubles: the same loops, the ratio
  \<open>day / daySpan\<close> and the quotient under \<open>Math.round\<close> rounded as well.\<close>

function dayLoop_double ::
  "(int \<Rightarrow> string) \<Rightarrow> nat \<Rightarrow> GoldAnchor \<Rightarrow> GoldAnchor \<Rightarrow> int \<Rightarrow> int \<Rightarrow> int \<Rightarrow> GoldPoint list" where
  "dayLoop_double isoDate index startA endA startTime daySpan day =
     (if day \<le> daySpan then
        (if index > 0 \<and> day = 0
         then dayLoop_double isoDate index startA endA startTime daySpan (day + 1)
         else
           (let ratio = (if daySpan = 0 then 0 else ddiv (real_of_int day) (real_of_int daySpan));
                v = interpolate_double (value startA) (value endA) ratio;
                t = startTime + day * DAY_MS;
                d = isoDate t
            in \<lparr>date = d, value = v, time = t\<rparr>
               # dayLoop_double isoDate index startA endA startTime daySpan (day + 1)))
      else [])"
  by pat_completeness auto
termination
  by (relation "measure (\<lambda>(isoDate, index, startA, endA, startTime, daySpan, day). nat (daySpan + 1 - day))")
     auto

definition pairPoints_double ::
  "(string \<Rightarrow> int option) \<Rightarrow> (int \<Rightarrow> string) \<Rightarrow> GoldAnchor list \<Rightarrow> nat \<Rightarrow> GoldPoint list" where
  "pairPoints_double parse isoDate sortedA index =
     (let startA = sortedA ! index;
          endA = sortedA ! (index + 1);
          startTime = anchorTime parse startA;
          endTime = anchorTime parse endA;
          daySpan = max 1 (Math_round (ddiv (real_of_int (endTime - startTime)) (real_of_int DAY_MS)))
      in dayLoop_double isoDate index startA endA startTime daySpan 0)"

function pairLoop_double ::
  "(string \<Rightarrow> int option) \<Rightarrow> (int \<Rightarrow> string) \<Rightarrow> GoldAnchor list \<Rightarrow> nat \<Rightarrow> GoldPoint list" where
  "pairLoop_double parse isoDate sortedA index =
     (if index + 1 < length sortedA
      then pairPoints_double parse isoDate sortedA index
           @ pairLoop_double parse isoDate sortedA (index + 1)
      else [])"
  by pat_completeness auto
termination
  by (relation "measure (\<lambda>(parse, isoDate, sortedA, index). length sortedA - index)") auto

declare dayLoop_double.simps [simp del] pairLoop_double.simps [simp del]

definition buildSeriesFromAnchors_double ::
  "(string \<Rightarrow> int option) \<Rightarrow> (int \<Rightarrow> string) \<Rightarrow> GoldAnchor list \<Rightarrow> GoldPoint list option" where
  "buildSeriesFromAnchors_double parse isoDate anchorList =
     (if \<exists>a \<in> set anchorList. parse (date a) = None then None
      else
        (let sortedA = sort_key (anchorTime parse) anchorList
         in if length sortedA = 1
            then Some [\<lparr>date = date (sortedA ! 0), value = value (sortedA ! 0),
                        time = anchorTime parse (sortedA ! 0)\<rparr>]
            else Some (pairLoop_double parse isoDate sortedA 0)))"

section \<open>Example platform functions\<close>

text \<open>A concrete \<open>Date.parse\<close> and date formatter on the first days of January 2024, for
  the worked examples.\<close>

definition exampleDays :: "(string \<times> int) list" where
  "exampleDays =
     [(''2024-01-01'', 1704067200000),
      (''2024-01-02'', 1704153600000),
      (''2024-01-03'', 1704240000000),
      (''2024-01-04'', 1704326400000),
      (''2024-01-05'', 1704412800000),
      (''2024-01-06'', 1704499200000),
      (''2024-01-07'', 1704585600000),
      (''2024-01-08'', 1704672000000),
      (''2024-01-09'', 1704758400000),
      (''2024-01-10'', 1704844800000),
      (''2024-01-11'', 1704931200000)]"

definition exampleParse :: "string \<Rightarrow> int option" where
  "exampleParse = map_of exampleDays"

definition exampleIso :: "int \<Rightarrow> string" where
  "exampleIso t =
     (case map_of (map (\<lambda>(d, t). (t, d)) exampleDays) t of
        Some d \<Rightarrow> d
      | None \<Rightarrow> ''another day'')"

text \<open>A snapshot file with two anchors ten days apart.\<close>

definition exampleFile :: GoldSeriesFile where
  "exampleFile =
     \<lparr>source = ''snapshot'', updatedAt = ''2024-01-11'',
      anchors = [\<lparr>date = ''2024-01-01'', value = 2000\<rparr>,
                 \<lparr>date = ''2024-01-11'', value = 2100\<rparr>]\<rparr>"

section \<open>Theorems\<close>

subsection \<open>\<open>resolveUnit\<close>\<close>

lemma resolveUnit_copies_agree: "resolveUnit_dashboard input = resolveUnit input"
  by (simp add: resolveUnit_def resolveUnit_dashboard_def)

text \<open>
  Claim C10. \<open>resolveUnit\<close> is total on every query parameter (undefined, a string, an
  array, of which only the first element counts): it returns \<open>''g''\<close> when the first value
  is exactly \<open>''g''\<close> and \<open>''oz''\<close> in every other case, so the result is always one of the
  two units; the dashboard's copy behaves the same.
\<close>

theorem resolveUnit_total:
  "resolveUnit input = (if firstValue input = Some ''g'' then ''g'' else ''oz'')
   \<and> resolveUnit input \<in> unitValue ` set goldUnits
   \<and> resolveUnit (Many (s # rest)) = resolveUnit (Single s)
   \<and> resolveUnit (Many []) = ''oz'' \<and> resolveUnit Undefined = ''oz''
   \<and> resolveUnit_dashboard input = resolveUnit input"
  by (cases "firstValue input")
     (auto simp: resolveUnit_def resolveUnit_dashboard_def goldUnits_def)

theorem resolveUnit_total_witness:
  "resolveUnit (Many [''g'', ''oz'']) = ''g'' \<and> resolveUnit (Single ''G'') = ''oz''
   \<and> resolveUnit (Single ''kg'') = ''oz'' \<and> resolveUnit (Many [''lb'', ''g'']) = ''oz''"
  using resolveUnit_total [of "Many [''g'', ''oz'']" "''g''" "[''oz'']"]
    resolveUnit_total [of "Single ''G''" "''g''" "[]"]
    resolveUnit_total [of "Single ''kg''" "''g''" "[]"]
    resolveUnit_total [of "Many [''lb'', ''g'']" "''g''" "[]"]
  by simp

subsection \<open>\<open>resolveRange\<close>\<close>

text \<open>What \<open>resolveRange\<close> does on keys it does not recognise: the default range, and no
  error as long as the formatter accepts its date.\<close>

lemma resolveRange_unrecognised:
  assumes "firstValue input = Some v"
    and "\<not> startsWith (toLowerCase v) ''month-''"
    and "\<not> startsWith (toLowerCase v) ''year-''"
  shows "resolveRange fmt input = Inr recentRange"
  using assms by (simp add: resolveRange_def Let_def)

lemma resolveRange_absent:
  "firstValue input = None \<Longrightarrow> resolveRange fmt input = Inr recentRange"
  by (simp add: resolveRange_def)

lemma resolveRange_total_formatter:
  "(\<forall>y m. fmt y m \<noteq> None) \<Longrightarrow> \<exists>r. resolveRange fmt input = Inr r"
  by (auto simp: resolveRange_def Let_def split: option.splits) (metis option.distinct(1))+

lemma resolveRange_recent_any_case:
  "resolveRange fmt (Single ''Recent'') = Inr recentRange
   \<and> resolveRange fmt (Single ''month-abc-13'') = Inr recentRange
   \<and> resolveRange fmt (Single ''2024'') = Inr recentRange
   \<and> resolveRange fmt (Many []) = Inr recentRange"
  by (simp add: resolveRange_def toLowerCase_def toLowerChar_def startsWith_def
      elemAt_def recentRange_def)

text \<open>A well-formed month key, in any letter case.\<close>

lemma resolveRange_month_ok:
  "fmt ''2024'' ''03'' = Some l \<Longrightarrow> resolveRange fmt (Single ''Month-2024-03'') = 
    Inr \<lparr>key = ''month-2024-03'', label = l, kind = KindMonth,
          days = None, year = Some ''2024'', month = Some ''03''\<rparr>"
  by (simp add: resolveRange_def toLowerCase_def toLowerChar_def startsWith_def
      elemAt_def recentRange_def)

text \<open>
  Claim C1 asks that every key resolves without an error and that a key whose year or month
  is not made of digits resolves to the default range. The code checks only the lengths of
  the fields. \<open>''year-abcd''\<close> resolves to a year range, whatever the formatter is;
  \<open>''month-abcd-12''\<close> passes the length checks too and then either fails with the
  formatter's \<open>RangeError\<close> or resolves to a month range: neither key resolves to the
  default range.
\<close>

theorem resolveRange_non_digit_keys:
  "resolveRange fmt (Single ''year-abcd'') =
     Inr \<lparr>key = ''year-abcd'', label = ''abcd'', kind = KindYear,
          days = None, year = Some ''abcd'', month = None\<rparr>
   \<and> resolveRange fmt (Single ''month-abcd-12'') =
     (case fmt ''abcd'' ''12'' of
        None \<Rightarrow> Inl RangeError
      | Some l \<Rightarrow> Inr \<lparr>key = ''month-abcd-12'', label = l, kind = KindMonth,
                       days = None, year = Some ''abcd'', month = Some ''12''\<rparr>)
   \<and> resolveRange fmt (Single ''year-abcd'') \<noteq> Inr recentRange
   \<and> resolveRange fmt (Single ''month-abcd-12'') \<noteq> Inr recentRange"
  by (simp add: resolveRange_def toLowerCase_def toLowerChar_def startsWith_def
      elemAt_def recentRange_def split: option.splits)

subsection \<open>Unit conversion\<close>

text \<open>In exact arithmetic the two conversions to grams are the same function.\<close>

lemma unitMultiplier_exact: "x * unitMultiplier u = convertPrice x u"
  by (simp add: unitMultiplier_def convertPrice_def)

text \<open>The doubles of the decimal literals used below.\<close>

lemma double_31: "toDouble 31.1034768 = 8754850407900429 / 281474976710656"
  by code_simp

lemma double_1503: "toDouble 1503.41 = 6612067105258865 / 4398046511104"
  by code_simp

lemma double_1500: "toDouble 1500.79 = 1650136055849943 / 1099511627776"
  by code_simp

lemma double_457: "toDouble 457.21 = 8043323381367439 / 17592186044416"
  by code_simp

text \<open>
  Claim C6 asks that conversion to grams yields exactly the quotient by 31.1034768 on both
  paths of the code. In doubles \<open>convertPrice\<close>, which divides, returns the quotient, and
  the multiplication by the reciprocal in \<open>getGoldData\<close> does not: for a point of value
  31.1034768 it gives \<open>1 - 2 ^ - 53\<close>, that is 0.9999999999999999, where the quotient is 1,
  and for 1503.41 it gives the double just below the quotient. For the unit \<open>''oz''\<close> both
  paths return the value unchanged.
\<close>

theorem unit_paths_differ_in_doubles:
  "toUnit_double (toDouble 31.1034768) ''g'' = 1 - 1 / 2 ^ 53
   \<and> convertPrice_double (toDouble 31.1034768) ''g'' = 1
   \<and> toUnit_double (toDouble 31.1034768) ''g'' \<noteq> convertPrice_double (toDouble 31.1034768) ''g''
   \<and> toUnit_double (toDouble 1503.41) ''g'' + 1 / 2 ^ 47
       = convertPrice_double (toDouble 1503.41) ''g''
   \<and> toUnit_double (toDouble 1503.41) ''oz'' = toDouble 1503.41
   \<and> convertPrice_double (toDouble 1503.41) ''oz'' = toDouble 1503.41"
proof -
  have recip: "unitMultiplier_double ''g'' = 4633410888516999 / 144115188075855872"
    unfolding unitMultiplier_double_def GRAMS_PER_OUNCE_double_def double_31 by code_simp
  have m31: "toUnit_double (toDouble 31.1034768) ''g'' = 1 - 1 / 2 ^ 53"
    unfolding toUnit_double_def recip double_31 by code_simp
  have c31: "convertPrice_double (toDouble 31.1034768) ''g'' = 1"
    unfolding convertPrice_double_def GRAMS_PER_OUNCE_double_def double_31 by code_simp
  have m1503: "toUnit_double (toDouble 1503.41) ''g'' = 1700663150367515 / 35184372088832"
    unfolding toUnit_double_def recip double_1503 by code_simp
  have c1503: "convertPrice_double (toDouble 1503.41) ''g'' = 6802652601470061 / 140737488355328"
    unfolding convertPrice_double_def GRAMS_PER_OUNCE_double_def double_31 double_1503
    by code_simp
  have moz: "toUnit_double (toDouble 1503.41) ''oz'' = toDouble 1503.41"
    unfolding toUnit_double_def double_1503 by code_simp
  have coz: "convertPrice_double (toDouble 1503.41) ''oz'' = toDouble 1503.41"
    by (simp add: convertPrice_double_def)
  have ne: "toUnit_double (toDouble 31.1034768) ''g'' \<noteq> convertPrice_double (toDouble 31.1034768) ''g''"
    unfolding m31 c31 by simp
  have step: "toUnit_double (toDouble 1503.41) ''g'' + 1 / 2 ^ 47
       = convertPrice_double (toDouble 1503.41) ''g''"
    unfolding m1503 c1503 by simp
  show ?thesis
    by (intro conjI m31 c31 ne step moz coz)
qed

subsection \<open>\<open>computeHighLow\<close>\<close>

lemma highLowLoop_Min_Max:
  "highLowLoop (lo, hi) points =
     (Min (insert lo (value ` set points)), Max (insert hi (value ` set points)))"
proof (induction points arbitrary: lo hi)
  case Nil
  show ?case by simp
next
  case (Cons p ps)
  have fin: "finite (value ` set ps)" by simp
  have mn: "Min (insert (if value p < lo then value p else lo) (value ` set ps))
            = Min (insert lo (insert (value p) (value ` set ps)))"
  proof (cases "value ` set ps = {}")
    case True
    then show ?thesis by (simp add: min_def)
  next
    case False
    have "Min (insert (min (value p) lo) (value ` set ps))
          = min (min (value p) lo) (Min (value ` set ps))"
      using fin False by (rule Min_insert)
    moreover have "Min (insert lo (insert (value p) (value ` set ps)))
          = min lo (min (value p) (Min (value ` set ps)))"
      using fin False by (simp only: Min_insert finite_insert insert_not_empty not_False_eq_True)
    moreover have "(if value p < lo then value p else lo) = min (value p) lo"
      by (simp add: min_def)
    ultimately show ?thesis by (simp only: min.assoc min.commute min.left_commute)
  qed
  have mx: "Max (insert (if value p > hi then value p else hi) (value ` set ps))
            = Max (insert hi (insert (value p) (value ` set ps)))"
  proof (cases "value ` set ps = {}")
    case True
    then show ?thesis by (simp add: max_def)
  next
    case False
    have "Max (insert (max (value p) hi) (value ` set ps))
          = max (max (value p) hi) (Max (value ` set ps))"
      using fin False by (rule Max_insert)
    moreover have "Max (insert hi (insert (value p) (value ` set ps)))
          = max hi (max (value p) (Max (value ` set ps)))"
      using fin False by (simp only: Max_insert finite_insert insert_not_empty not_False_eq_True)
    moreover have "(if value p > hi then value p else hi) = max (value p) hi"
      by (simp add: max_def)
    ultimately show ?thesis by (simp only: max.assoc max.commute max.left_commute)
  qed
  show ?case using Cons.IH mn mx by simp
qed

lemma computeHighLow_nonempty:
  assumes ne: "points \<noteq> []"
  shows "computeHighLow points =
          Some \<lparr>low = Min (value ` set points), high = Max (value ` set points)\<rparr>"
proof -
  obtain p ps where eq: "points = p # ps" using ne by (cases points) auto
  have "insert (value p) (value ` set points) = value ` set points"
    using eq by auto
  then show ?thesis
    using eq by (simp add: computeHighLow_def highLowLoop_Min_Max del: highLowLoop.simps)
qed

text \<open>
  Claim C9. \<open>computeHighLow\<close> is absent exactly for the empty list; for a non-empty list
  it returns the minimum and the maximum of the points' values; over the values
  100, 80, 120, 95 it returns low 80 and high 120.
\<close>

theorem computeHighLow_min_max:
  "(computeHighLow points = None \<longleftrightarrow> points = [])
   \<and> (points \<noteq> [] \<longrightarrow>
        computeHighLow points =
          Some \<lparr>low = Min (value ` set points), high = Max (value ` set points)\<rparr>)
   \<and> (map value points = [100, 80, 120, 95] \<longrightarrow>
        computeHighLow points = Some \<lparr>low = 80, high = 120\<rparr>)"
proof -
  have a: "computeHighLow points = None \<longleftrightarrow> points = []"
    by (cases points) (auto simp: computeHighLow_def split: prod.splits)
  have b: "computeHighLow points =
          Some \<lparr>low = Min (value ` set points), high = Max (value ` set points)\<rparr>"
    if ne: "points \<noteq> []"
    using ne by (rule computeHighLow_nonempty)
  have c: "computeHighLow points = Some \<lparr>low = 80, high = 120\<rparr>"
    if m: "map value points = [100, 80, 120, 95]"
  proof -
    have ne: "points \<noteq> []" using m by auto
    have "value ` set points = set (map value points)" by simp
    then have "value ` set points = {100, 80, 120, 95}" unfolding m by simp
    then show ?thesis using b [OF ne] by simp
  qed
  show ?thesis using a b c by blast
qed

theorem computeHighLow_min_max_witness:
  "computeHighLow
     [\<lparr>date = ''2024-01-01'', value = 100, time = 1704067200000\<rparr>,
      \<lparr>date = ''2024-01-02'', value = 80, time = 1704153600000\<rparr>,
      \<lparr>date = ''2024-01-03'', value = 120, time = 1704240000000\<rparr>,
      \<lparr>date = ''2024-01-04'', value = 95, time = 1704326400000\<rparr>]
   = Some \<lparr>low = 80, high = 120\<rparr> \<and> computeHighLow [] = None"
  using computeHighLow_min_max
    [of "[\<lparr>date = ''2024-01-01'', value = 100, time = 1704067200000\<rparr>,
      \<lparr>date = ''2024-01-02'', value = 80, time = 1704153600000\<rparr>,
      \<lparr>date = ''2024-01-03'', value = 120, time = 1704240000000\<rparr>,
      \<lparr>date = ''2024-01-04'', value = 95, time = 1704326400000\<rparr>]"]
    computeHighLow_min_max [of "[]"]
  by simp

subsection \<open>\<open>sliceRange\<close>\<close>

text \<open>
  Claim C4. On a non-empty list \<open>sliceRange\<close> never returns the empty list: for each kind
  of range, when its filter keeps no point the full list comes back unchanged, and the
  result is always either the full list or a filter of it.
\<close>

theorem sliceRange_never_empty:
  "(points \<noteq> [] \<longrightarrow> sliceRange points rangeCfg latestP \<noteq> [])
   \<and> (kind rangeCfg = KindRecent
        \<and> filter (\<lambda>p. time p \<ge> time latestP - (case days rangeCfg of Some d \<Rightarrow> d | None \<Rightarrow> 14) * DAY_MS)
             points = []
        \<longrightarrow> sliceRange points rangeCfg latestP = points)
   \<and> (kind rangeCfg = KindMonth \<and> year rangeCfg = Some y \<and> month rangeCfg = Some m
        \<and> filter (\<lambda>p. startsWith (date p) (y @ ''-'' @ m)) points = []
        \<longrightarrow> sliceRange points rangeCfg latestP = points)
   \<and> (kind rangeCfg = KindYear \<and> year rangeCfg = Some y
        \<and> filter (\<lambda>p. startsWith (date p) y) points = []
        \<longrightarrow> sliceRange points rangeCfg latestP = points)
   \<and> (sliceRange points rangeCfg latestP = points
        \<or> (\<exists>P. sliceRange points rangeCfg latestP = filter P points))"
proof -
  have a: "sliceRange points rangeCfg latestP \<noteq> []" if "points \<noteq> []"
    using that by (cases "kind rangeCfg") (simp_all add: sliceRange_def Let_def)
  have b: "sliceRange points rangeCfg latestP = points"
    if "kind rangeCfg = KindRecent"
      "filter (\<lambda>p. time p \<ge> time latestP - (case days rangeCfg of Some d \<Rightarrow> d | None \<Rightarrow> 14) * DAY_MS)
             points = []"
    using that by (cases "points = []") (simp_all add: sliceRange_def Let_def)
  have c: "sliceRange points rangeCfg latestP = points"
    if "kind rangeCfg = KindMonth" "year rangeCfg = Some y" "month rangeCfg = Some m"
       "filter (\<lambda>p. startsWith (date p) (y @ ''-'' @ m)) points = []"
    using that by (cases "points = []") (simp_all add: sliceRange_def Let_def truthy_def)
  have d: "sliceRange points rangeCfg latestP = points"
    if "kind rangeCfg = KindYear" "year rangeCfg = Some y"
       "filter (\<lambda>p. startsWith (date p) y) points = []"
    using that by (cases "points = []") (simp_all add: sliceRange_def Let_def truthy_def)
  have e: "sliceRange points rangeCfg latestP = points
        \<or> (\<exists>P. sliceRange points rangeCfg latestP = filter P points)"
    by (cases "kind rangeCfg") (auto simp: sliceRange_def Let_def)
  show ?thesis using a b c d e by blast
qed

theorem sliceRange_never_empty_witness:
  "sliceRange
     [\<lparr>date = ''2024-01-01'', value = 2000, time = 1704067200000\<rparr>,
      \<lparr>date = ''2024-01-02'', value = 2010, time = 1704153600000\<rparr>]
     \<lparr>key = ''month-2023-05'', label = ''May 2023'', kind = KindMonth,
      days = None, year = Some ''2023'', month = Some ''05''\<rparr>
     \<lparr>date = ''2024-01-02'', value = 2010, time = 1704153600000\<rparr>
   = [\<lparr>date = ''2024-01-01'', value = 2000, time = 1704067200000\<rparr>,
      \<lparr>date = ''2024-01-02'', value = 2010, time = 1704153600000\<rparr>]"
  using sliceRange_never_empty
    [of "[\<lparr>date = ''2024-01-01'', value = 2000, time = 1704067200000\<rparr>,
          \<lparr>date = ''2024-01-02'', value = 2010, time = 1704153600000\<rparr>]"
        "\<lparr>key = ''month-2023-05'', label = ''May 2023'', kind = KindMonth,
          days = None, year = Some ''2023'', month = Some ''05''\<rparr>"
        "\<lparr>date = ''2024-01-02'', value = 2010, time = 1704153600000\<rparr>"
        "''2023''" "''05''"]
  by (simp add: startsWith_def)

subsection \<open>\<open>computeChange\<close>\<close>

lemma scanBack_None: "scanBack ps t n = None \<longleftrightarrow> (\<forall>i<n. \<not> time (ps ! i) \<le> t)"
  by (induction n) (auto simp: less_Suc_eq)

lemma scanBack_Some:
  "i < n \<Longrightarrow> time (ps ! i) \<le> t \<Longrightarrow> (\<forall>j. i < j \<and> j < n \<longrightarrow> \<not> time (ps ! j) \<le> t)
   \<Longrightarrow> scanBack ps t n = Some (ps ! i)"
proof (induction n)
  case 0
  then show ?case by simp
next
  case (Suc n)
  show ?case
  proof (cases "i = n")
    case True
    then show ?thesis using Suc.prems by simp
  next
    case False
    then have "i < n" using Suc.prems by simp
    moreover have "\<not> time (ps ! n) \<le> t" using Suc.prems \<open>i < n\<close> by simp
    ultimately show ?thesis using Suc by simp
  qed
qed

lemma dense_times:
  "(\<forall>i. i + 1 < length ps \<longrightarrow> time (ps ! (i + 1)) = time (ps ! i) + DAY_MS)
   \<Longrightarrow> i < length ps \<Longrightarrow> time (ps ! i) = time (ps ! 0) + int i * DAY_MS"
proof (induction i)
  case 0
  then show ?case by simp
next
  case (Suc i)
  then have "time (ps ! (i + 1)) = time (ps ! i) + DAY_MS" by simp
  then show ?case using Suc by (simp add: algebra_simps)
qed

text \<open>
  Claim C3. With \<open>target = latest.time - daysBack * DAY_MS\<close>: \<open>computeChange\<close> is absent
  exactly when the list is empty or no point has a time at or before the target; when the
  last point in list order at or before the target is \<open>points ! i\<close>, the result is the
  quotient \<open>(latest.value - prior.value) / prior.value\<close> as JavaScript divides (not finite
  for a zero divisor); and a daily-spaced list of fewer than \<open>daysBack + 1\<close> points gives
  absent.
\<close>

theorem computeChange_prior:
  fixes points :: "GoldPoint list" and daysBack :: int
  defines "target \<equiv> time (last points) - daysBack * DAY_MS"
  shows
  "(computeChange points daysBack = None
      \<longleftrightarrow> points = [] \<or> (\<forall>p \<in> set points. \<not> time p \<le> target))
   \<and> (i < length points \<and> time (points ! i) \<le> target
        \<and> (\<forall>j. i < j \<and> j < length points \<longrightarrow> \<not> time (points ! j) \<le> target)
        \<longrightarrow> computeChange points daysBack
              = Some (js_div (value (last points) - value (points ! i)) (value (points ! i))))
   \<and> (points \<noteq> [] \<and> int (length points) < daysBack + 1
        \<and> (\<forall>k. k + 1 < length points \<longrightarrow> time (points ! (k + 1)) = time (points ! k) + DAY_MS)
        \<longrightarrow> computeChange points daysBack = None)"
proof -
  have lastnth: "points ! (length points - 1) = last points" if "points \<noteq> []"
    using that by (simp add: last_conv_nth)
  have a: "computeChange points daysBack = None
      \<longleftrightarrow> points = [] \<or> (\<forall>p \<in> set points. \<not> time p \<le> target)"
  proof (cases "points = []")
    case True
    then show ?thesis by (simp add: computeChange_def)
  next
    case False
    have "(scanBack points target (length points) = None)
          = (\<forall>p \<in> set points. \<not> time p \<le> target)"
      unfolding scanBack_None by (metis in_set_conv_nth)
    then show ?thesis
      using False lastnth [OF False]
      by (auto simp: computeChange_def Let_def target_def split: option.splits)
  qed
  have b: "computeChange points daysBack
              = Some (js_div (value (last points) - value (points ! i)) (value (points ! i)))"
    if h: "i < length points" "time (points ! i) \<le> target"
        "\<forall>j. i < j \<and> j < length points \<longrightarrow> \<not> time (points ! j) \<le> target"
  proof -
    have ne: "points \<noteq> []" using h(1) by auto
    have "scanBack points target (length points) = Some (points ! i)"
      using h by (rule scanBack_Some)
    then show ?thesis
      using ne lastnth [OF ne] by (simp add: computeChange_def Let_def target_def)
  qed
  have c: "computeChange points daysBack = None"
    if ne: "points \<noteq> []" and short: "int (length points) < daysBack + 1"
      and dense: "\<forall>k. k + 1 < length points \<longrightarrow> time (points ! (k + 1)) = time (points ! k) + DAY_MS"
  proof -
    have pos: "0 < DAY_MS" by (simp add: DAY_MS_def)
    have lt: "last points = points ! (length points - 1)" using ne by (simp add: last_conv_nth)
    have tl: "time (last points) = time (points ! 0) + int (length points - 1) * DAY_MS"
      unfolding lt using dense ne by (intro dense_times) auto
    have "\<not> time p \<le> target" if pin: "p \<in> set points" for p
    proof -
      obtain k where k: "k < length points" "p = points ! k"
        using pin by (auto simp: in_set_conv_nth)
      have tk: "time p = time (points ! 0) + int k * DAY_MS"
        unfolding k(2) using dense k(1) by (rule dense_times)
      have "int (length points - 1) < int (length points)" using ne by simp
      then have "int (length points - 1) - daysBack < int k" using short by linarith
      then have "(int (length points - 1) - daysBack) * DAY_MS < int k * DAY_MS"
        using pos by (rule mult_strict_right_mono)
      then show ?thesis unfolding tk target_def tl by (simp add: algebra_simps)
    qed
    then show ?thesis using a by blast
  qed
  show ?thesis using a b c by blast
qed

theorem computeChange_prior_witness:
  "computeChange
     [\<lparr>date = ''2024-01-01'', value = 2000, time = 1704067200000\<rparr>,
      \<lparr>date = ''2024-01-02'', value = 2010, time = 1704153600000\<rparr>,
      \<lparr>date = ''2024-01-03'', value = 2100, time = 1704240000000\<rparr>] 30 = None
   \<and> computeChange
     [\<lparr>date = ''2024-01-01'', value = 2000, time = 1704067200000\<rparr>,
      \<lparr>date = ''2024-01-02'', value = 2010, time = 1704153600000\<rparr>,
      \<lparr>date = ''2024-01-03'', value = 2100, time = 1704240000000\<rparr>] 2
     = Some (Finite (1 / 20))"
  using computeChange_prior
    [of "[\<lparr>date = ''2024-01-01'', value = 2000, time = 1704067200000\<rparr>,
          \<lparr>date = ''2024-01-02'', value = 2010, time = 1704153600000\<rparr>,
          \<lparr>date = ''2024-01-03'', value = 2100, time = 1704240000000\<rparr>]" 30 0]
    computeChange_prior
    [of "[\<lparr>date = ''2024-01-01'', value = 2000, time = 1704067200000\<rparr>,
          \<lparr>date = ''2024-01-02'', value = 2010, time = 1704153600000\<rparr>,
          \<lparr>date = ''2024-01-03'', value = 2100, time = 1704240000000\<rparr>]" 2 0]
  by (simp add: DAY_MS_def js_div_def nth_Cons' less_Suc_eq all_conj_distrib)

subsection \<open>The forward fill of \<open>fetchGoldSeries\<close>\<close>

lemma fillLoop_length: "length (fillLoop lk r) = length r"
  by (induction lk r rule: fillLoop.induct) auto









subsection \<open>The densifier\<close>

lemma dayLoop_eq:
  "dayLoop isoDate index s e st dspan day =
     map (\<lambda>d. \<lparr>date = isoDate (st + d * DAY_MS),
               value = interpolate (value s) (value e)
                         (if dspan = 0 then 0 else real_of_int d / real_of_int dspan),
               time = st + d * DAY_MS\<rparr>)
       (filter (\<lambda>d. \<not> (index > 0 \<and> d = 0)) [day..dspan])"
proof (induction isoDate index s e st dspan day rule: dayLoop.induct)
  case (1 isoDate index startA endA startTime daySpan day)
  show ?case
  proof (cases "day \<le> daySpan")
    case False
    then show ?thesis by (subst dayLoop.simps) simp
  next
    case True
    note up = upto_rec1 [OF True]
    show ?thesis
    proof (cases "index > 0 \<and> day = 0")
      case True
      have "dayLoop isoDate index startA endA startTime daySpan day
            = dayLoop isoDate index startA endA startTime daySpan (day + 1)"
        using True \<open>day \<le> daySpan\<close> by (subst dayLoop.simps) simp
      moreover have "filter (\<lambda>d. \<not> (index > 0 \<and> d = 0)) [day..daySpan]
            = filter (\<lambda>d. \<not> (index > 0 \<and> d = 0)) [day + 1..daySpan]"
        unfolding up using True by simp
      ultimately show ?thesis
        using "1.IH"(1) [OF \<open>day \<le> daySpan\<close> True] by simp
    next
      case False
      have "dayLoop isoDate index startA endA startTime daySpan day
            = \<lparr>date = isoDate (startTime + day * DAY_MS),
               value = interpolate (value startA) (value endA)
                         (if daySpan = 0 then 0 else real_of_int day / real_of_int daySpan),
               time = startTime + day * DAY_MS\<rparr>
              # dayLoop isoDate index startA endA startTime daySpan (day + 1)"
        using False \<open>day \<le> daySpan\<close> by (subst dayLoop.simps) (simp add: Let_def)
      moreover have "filter (\<lambda>d. \<not> (index > 0 \<and> d = 0)) [day..daySpan]
            = day # filter (\<lambda>d. \<not> (index > 0 \<and> d = 0)) [day + 1..daySpan]"
        unfolding up using False by simp
      ultimately show ?thesis
        using "1.IH"(2) [OF \<open>day \<le> daySpan\<close> False refl refl refl refl] by simp
    qed
  qed
qed

lemma filter_skip_first:
  "1 \<le> dspan \<Longrightarrow> filter (\<lambda>d. \<not> (index > 0 \<and> d = 0)) [0..dspan]
     = [(if index > (0::nat) then 1 else 0)..dspan]"
proof -
  assume sp: "1 \<le> dspan"
  have a: "[0..dspan] = 0 # [1..dspan]" using sp by (simp add: upto_rec1)
  have b: "filter (\<lambda>d. d \<noteq> 0) [1..dspan] = [1..dspan]"
    by (rule filter_True) auto
  show ?thesis
  proof (cases "index > 0")
    case True
    then have "filter (\<lambda>d. \<not> (index > 0 \<and> d = 0)) [0..dspan]
               = filter (\<lambda>d. d \<noteq> 0) (0 # [1..dspan])"
      unfolding a by simp
    also have "\<dots> = [1..dspan]" using b by simp
    finally show ?thesis using True by simp
  next
    case False
    then show ?thesis by simp
  qed
qed

lemma dayLoop_times:
  "1 \<le> dspan \<Longrightarrow> map time (dayLoop isoDate index s e st dspan 0)
     = map (\<lambda>d. st + d * DAY_MS) [(if index > 0 then 1 else 0)..dspan]"
  unfolding dayLoop_eq by (subst filter_skip_first) (simp_all add: comp_def)

lemma dayLoop_dates: "p \<in> set (dayLoop isoDate index s e st dspan day) \<Longrightarrow> date p = isoDate (time p)"
  by (auto simp: dayLoop_eq)

lemma dayLoop_first:
  "1 \<le> dspan \<Longrightarrow>
   \<exists>p \<in> set (dayLoop isoDate 0 s e st dspan 0).
      time p = st \<and> value p = interpolate (value s) (value e) 0"
proof -
  assume sp: "1 \<le> dspan"
  have "(0::int) \<in> set (filter (\<lambda>d. \<not> ((0::nat) > 0 \<and> d = 0)) [0..dspan])" using sp by simp
  then have "\<lparr>date = isoDate (st + 0 * DAY_MS),
               value = interpolate (value s) (value e)
                         (if dspan = 0 then 0 else real_of_int 0 / real_of_int dspan),
               time = st + 0 * DAY_MS\<rparr> \<in> set (dayLoop isoDate 0 s e st dspan 0)"
    unfolding dayLoop_eq set_map by (rule imageI)
  then show ?thesis by (rule rev_bexI) simp
qed

lemma dayLoop_last:
  assumes sp: "1 \<le> dspan"
  shows "\<exists>p \<in> set (dayLoop isoDate index s e st dspan 0).
      time p = st + dspan * DAY_MS \<and> value p = interpolate (value s) (value e) 1"
proof -
  define p where "p = \<lparr>date = isoDate (st + dspan * DAY_MS),
               value = interpolate (value s) (value e)
                         (if dspan = 0 then 0 else real_of_int dspan / real_of_int dspan),
               time = st + dspan * DAY_MS\<rparr>"
  have "dspan \<in> set (filter (\<lambda>d. \<not> (index > 0 \<and> d = 0)) [0..dspan])" using sp by simp
  then have "p \<in> set (dayLoop isoDate index s e st dspan 0)"
    unfolding dayLoop_eq set_map p_def by (rule imageI)
  moreover have "time p = st + dspan * DAY_MS" by (simp add: p_def)
  moreover have "value p = interpolate (value s) (value e) 1" using sp by (simp add: p_def)
  ultimately show ?thesis by blast
qed

lemma span_exact:
  assumes "a < b" "a mod DAY_MS = 0" "b mod DAY_MS = 0"
  shows "max 1 (Math_round (real_of_int (b - a) / real_of_int DAY_MS)) = (b - a) div DAY_MS"
    and "1 \<le> (b - a) div DAY_MS"
    and "a + ((b - a) div DAY_MS) * DAY_MS = b"
proof -
  have pos: "0 < DAY_MS" by (simp add: DAY_MS_def)
  have "(b - a) mod DAY_MS = 0" using assms(2,3) by (simp add: mod_diff_eq [symmetric])
  then have "DAY_MS dvd b - a" by (simp add: mod_eq_0_iff_dvd)
  then obtain k where "b - a = DAY_MS * k" by (rule dvdE)
  then have k: "b - a = k * DAY_MS" by (simp add: mult.commute)
  have kpos: "1 \<le> k"
  proof (rule ccontr)
    assume "\<not> 1 \<le> k"
    then have "k \<le> 0" by simp
    then have "k * DAY_MS \<le> 0" using pos by (simp add: mult_le_0_iff)
    then show False using k assms(1) by simp
  qed
  have dv: "(b - a) div DAY_MS = k" using k pos by simp
  have "real_of_int (b - a) / real_of_int DAY_MS = real_of_int k" using k pos by simp
  then have "Math_round (real_of_int (b - a) / real_of_int DAY_MS) = k"
    by (simp add: Math_round_def)
  then show "max 1 (Math_round (real_of_int (b - a) / real_of_int DAY_MS)) = (b - a) div DAY_MS"
    using kpos dv by simp
  show "1 \<le> (b - a) div DAY_MS" using kpos dv by simp
  show "a + ((b - a) div DAY_MS) * DAY_MS = b" using dv k by simp
qed

lemma upto_shift: "map (\<lambda>d. d + m) [i..j] = [i + m..j + m]"
  by (rule nth_equalityI) auto

lemma append_days:
  assumes "a + m * DAY_MS = b" "lo \<le> m + 1" "0 \<le> n"
  shows "map (\<lambda>d. a + d * DAY_MS) [lo..m] @ map (\<lambda>d. b + d * DAY_MS) [1..n]
         = map (\<lambda>d. a + d * DAY_MS) [lo..m + n]"
proof -
  have "map (\<lambda>d. b + d * DAY_MS) [1..n] = map (\<lambda>d. a + d * DAY_MS) (map (\<lambda>d. d + m) [1..n])"
    using assms(1) by (simp add: comp_def algebra_simps)
  also have "\<dots> = map (\<lambda>d. a + d * DAY_MS) [m + 1..m + n]"
    unfolding upto_shift by (simp add: add.commute)
  finally have r: "map (\<lambda>d. b + d * DAY_MS) [1..n] = map (\<lambda>d. a + d * DAY_MS) [m + 1..m + n]" .
  have "[lo..m + n] = [lo..m] @ [m + 1..m + n]"
  proof (cases "lo \<le> m")
    case True
    then show ?thesis using assms(3) by (intro upto_split2) auto
  next
    case False
    then have "lo = m + 1" using assms(2) by simp
    then show ?thesis by simp
  qed
  then show ?thesis using r by simp
qed

lemma div_days:
  assumes "a + m * DAY_MS = b"
  shows "(c - a) div DAY_MS = m + (c - b) div DAY_MS"
proof -
  have "c - a = (c - b) + m * DAY_MS" using assms by simp
  then show ?thesis by (simp add: DAY_MS_def)
qed

lemma pairPoints_times:
  assumes "anchorTime parse (xs ! i) < anchorTime parse (xs ! (i + 1))"
    and "anchorTime parse (xs ! i) mod DAY_MS = 0"
    and "anchorTime parse (xs ! (i + 1)) mod DAY_MS = 0"
  shows "map time (pairPoints parse isoDate xs i)
         = map (\<lambda>d. anchorTime parse (xs ! i) + d * DAY_MS)
             [(if i > 0 then 1 else 0)
              ..(anchorTime parse (xs ! (i + 1)) - anchorTime parse (xs ! i)) div DAY_MS]"
  unfolding pairPoints_def Let_def span_exact(1) [OF assms]
  by (rule dayLoop_times) (rule span_exact(2) [OF assms])

lemma pairPoints_last:
  assumes "anchorTime parse (xs ! i) < anchorTime parse (xs ! (i + 1))"
    and "anchorTime parse (xs ! i) mod DAY_MS = 0"
    and "anchorTime parse (xs ! (i + 1)) mod DAY_MS = 0"
  shows "\<exists>p \<in> set (pairPoints parse isoDate xs i).
           time p = anchorTime parse (xs ! (i + 1))
           \<and> value p = interpolate (value (xs ! i)) (value (xs ! (i + 1))) 1"
  using dayLoop_last [OF span_exact(2) [OF assms], of isoDate i "xs ! i" "xs ! (i + 1)"
      "anchorTime parse (xs ! i)"]
  unfolding pairPoints_def Let_def span_exact(1) [OF assms] span_exact(3) [OF assms] .

lemma pairPoints_first:
  assumes "anchorTime parse (xs ! 0) < anchorTime parse (xs ! (0 + 1))"
    and "anchorTime parse (xs ! 0) mod DAY_MS = 0"
    and "anchorTime parse (xs ! (0 + 1)) mod DAY_MS = 0"
  shows "\<exists>p \<in> set (pairPoints parse isoDate xs 0).
           time p = anchorTime parse (xs ! 0)
           \<and> value p = interpolate (value (xs ! 0)) (value (xs ! (0 + 1))) 0"
  using dayLoop_first [OF span_exact(2) [OF assms], of isoDate "xs ! 0" "xs ! (0 + 1)"
      "anchorTime parse (xs ! 0)"]
  unfolding pairPoints_def Let_def span_exact(1) [OF assms] .

lemma pairPoints_dates:
  "p \<in> set (pairPoints parse isoDate xs i) \<Longrightarrow> date p = isoDate (time p)"
  unfolding pairPoints_def Let_def by (rule dayLoop_dates)

lemma pairLoop_dates:
  "p \<in> set (pairLoop parse isoDate xs index) \<Longrightarrow> date p = isoDate (time p)"
proof (induction parse isoDate xs index rule: pairLoop.induct)
  case (1 parse isoDate sortedA index)
  show ?case
  proof (cases "index + 1 < length sortedA")
    case True
    then have "p \<in> set (pairPoints parse isoDate sortedA index)
               \<or> p \<in> set (pairLoop parse isoDate sortedA (index + 1))"
      using "1.prems" by (subst (asm) pairLoop.simps) simp
    then show ?thesis using "1.IH" [OF True] pairPoints_dates by blast
  next
    case False
    then show ?thesis using "1.prems" by (subst (asm) pairLoop.simps) simp
  qed
qed

lemma pairLoop_contains:
  "index \<le> i \<Longrightarrow> i + 1 < length xs
   \<Longrightarrow> set (pairPoints parse isoDate xs i) \<subseteq> set (pairLoop parse isoDate xs index)"
proof (induction "i - index" arbitrary: index)
  case 0
  then have "index = i" by simp
  then show ?case using "0.prems"(2) by (subst pairLoop.simps) simp
next
  case (Suc n)
  then have lt: "index + 1 < length xs" and le: "index + 1 \<le> i" and n: "n = i - (index + 1)"
    by simp_all
  have "set (pairPoints parse isoDate xs i) \<subseteq> set (pairLoop parse isoDate xs (index + 1))"
    using Suc.hyps(1) [OF n le Suc.prems(2)] .
  then show ?case using lt by (subst pairLoop.simps) auto
qed

lemma pairLoop_times:
  assumes strict: "sorted_wrt (\<lambda>x y. anchorTime parse x < anchorTime parse y) xs"
    and mult: "\<forall>a \<in> set xs. anchorTime parse a mod DAY_MS = 0"
  shows "0 < index \<Longrightarrow> index < length xs
         \<Longrightarrow> map time (pairLoop parse isoDate xs index)
             = map (\<lambda>d. anchorTime parse (xs ! index) + d * DAY_MS)
                 [1..(anchorTime parse (last xs) - anchorTime parse (xs ! index)) div DAY_MS]"
proof (induction "length xs - index" arbitrary: index)
  case 0
  then show ?case by simp
next
  case (Suc n)
  have pos: "0 < DAY_MS" by (simp add: DAY_MS_def)
  have lastnth: "last xs = xs ! (length xs - 1)"
    using Suc.prems(2) by (intro last_conv_nth) auto
  show ?case
  proof (cases "index + 1 < length xs")
    case False
    then have idx: "index = length xs - 1" using Suc.prems(2) by simp
    have "pairLoop parse isoDate xs index = []"
      using False by (subst pairLoop.simps) simp
    then show ?thesis using idx lastnth by simp
  next
    case True
    define a where "a = anchorTime parse (xs ! index)"
    define b where "b = anchorTime parse (xs ! (index + 1))"
    define c where "c = anchorTime parse (last xs)"
    have ab: "a < b"
      unfolding a_def b_def using strict True by (intro sorted_wrt_nth_less [OF strict]) auto
    have am: "a mod DAY_MS = 0" unfolding a_def using mult Suc.prems(2) by simp
    have bm: "b mod DAY_MS = 0" unfolding b_def using mult True by simp
    have bc: "b \<le> c"
    proof (cases "index + 1 = length xs - 1")
      case True
      then show ?thesis unfolding b_def c_def lastnth by simp
    next
      case False
      then have "index + 1 < length xs - 1" using True by simp
      then have "anchorTime parse (xs ! (index + 1)) < anchorTime parse (xs ! (length xs - 1))"
        using True by (intro sorted_wrt_nth_less [OF strict]) auto
      then show ?thesis unfolding b_def c_def lastnth by simp
    qed
    have times: "map time (pairPoints parse isoDate xs index)
                 = map (\<lambda>d. a + d * DAY_MS) [1..(b - a) div DAY_MS]"
      using pairPoints_times [of parse xs index isoDate] ab am bm Suc.prems(1)
      unfolding a_def b_def by simp
    have ih: "map time (pairLoop parse isoDate xs (index + 1))
              = map (\<lambda>d. b + d * DAY_MS) [1..(c - b) div DAY_MS]"
      unfolding b_def c_def using Suc.hyps(2) True by (intro Suc.hyps(1)) auto
    have step: "a + ((b - a) div DAY_MS) * DAY_MS = b"
      using span_exact(3) [OF ab am bm] .
    have nn: "0 \<le> (c - b) div DAY_MS"
      using bc pos by (simp add: pos_imp_zdiv_nonneg_iff)
    have lo: "1 \<le> (b - a) div DAY_MS + 1"
      using span_exact(2) [OF ab am bm] by simp
    have "map time (pairLoop parse isoDate xs index)
          = map time (pairPoints parse isoDate xs index)
            @ map time (pairLoop parse isoDate xs (index + 1))"
      using True by (subst pairLoop.simps) simp
    also have "\<dots> = map (\<lambda>d. a + d * DAY_MS) [1..(b - a) div DAY_MS + (c - b) div DAY_MS]"
      unfolding times ih using step lo nn by (rule append_days)
    also have "(b - a) div DAY_MS + (c - b) div DAY_MS = (c - a) div DAY_MS"
      using div_days [OF step, of c] by simp
    finally show ?thesis unfolding a_def c_def .
  qed
qed

lemma pairLoop_times0:
  assumes strict: "sorted_wrt (\<lambda>x y. anchorTime parse x < anchorTime parse y) xs"
    and mult: "\<forall>a \<in> set xs. anchorTime parse a mod DAY_MS = 0"
    and len: "2 \<le> length xs"
  shows "map time (pairLoop parse isoDate xs 0)
             = map (\<lambda>d. anchorTime parse (xs ! 0) + d * DAY_MS)
                 [0..(anchorTime parse (last xs) - anchorTime parse (xs ! 0)) div DAY_MS]"
proof -
  have pos: "0 < DAY_MS" by (simp add: DAY_MS_def)
  define a where "a = anchorTime parse (xs ! 0)"
  define b where "b = anchorTime parse (xs ! (0 + 1))"
  define c where "c = anchorTime parse (last xs)"
  have ab: "a < b"
    unfolding a_def b_def using len by (intro sorted_wrt_nth_less [OF strict]) auto
  have m: "anchorTime parse (xs ! i) mod DAY_MS = 0" if "i < length xs" for i
    using mult that by (simp add: nth_mem)
  have am: "a mod DAY_MS = 0" unfolding a_def using len by (intro m) auto
  have bm: "b mod DAY_MS = 0" unfolding b_def using len by (intro m) auto
  have times: "map time (pairPoints parse isoDate xs 0)
                 = map (\<lambda>d. a + d * DAY_MS) [0..(b - a) div DAY_MS]"
    using pairPoints_times [of parse xs 0 isoDate] ab am bm
    unfolding a_def b_def by simp
  have rest: "map time (pairLoop parse isoDate xs (0 + 1))
              = map (\<lambda>d. b + d * DAY_MS) [1..(c - b) div DAY_MS]"
    unfolding b_def c_def using len by (intro pairLoop_times [OF strict mult]) auto
  have step: "a + ((b - a) div DAY_MS) * DAY_MS = b"
    using span_exact(3) [OF ab am bm] .
  have lastnth: "last xs = xs ! (length xs - 1)" using len by (intro last_conv_nth) auto
  have "b \<le> c"
  proof (cases "0 + 1 = length xs - 1")
    case True
    then show ?thesis unfolding b_def c_def lastnth by simp
  next
    case False
    then have "0 + 1 < length xs - 1" using len by simp
    then have "anchorTime parse (xs ! (0 + 1)) < anchorTime parse (xs ! (length xs - 1))"
      by (intro sorted_wrt_nth_less [OF strict]) auto
    then show ?thesis unfolding b_def c_def lastnth by simp
  qed
  then have nn: "0 \<le> (c - b) div DAY_MS"
    using pos by (simp add: pos_imp_zdiv_nonneg_iff)
  have lo: "0 \<le> (b - a) div DAY_MS + 1"
    using span_exact(2) [OF ab am bm] by simp
  have "map time (pairLoop parse isoDate xs 0)
          = map time (pairPoints parse isoDate xs 0)
            @ map time (pairLoop parse isoDate xs (0 + 1))"
    using len by (subst pairLoop.simps) simp
  also have "\<dots> = map (\<lambda>d. a + d * DAY_MS) [0..(b - a) div DAY_MS + (c - b) div DAY_MS]"
    unfolding times rest using step lo nn by (rule append_days)
  also have "(b - a) div DAY_MS + (c - b) div DAY_MS = (c - a) div DAY_MS"
    using div_days [OF step, of c] by simp
  finally show ?thesis unfolding a_def c_def .
qed

lemma pairLoop_anchor:
  assumes strict: "sorted_wrt (\<lambda>x y. anchorTime parse x < anchorTime parse y) xs"
    and mult: "\<forall>a \<in> set xs. anchorTime parse a mod DAY_MS = 0"
    and len: "2 \<le> length xs"
    and j: "j < length xs"
  shows "\<exists>p \<in> set (pairLoop parse isoDate xs 0).
           time p = anchorTime parse (xs ! j)
           \<and> value p = (if j = 0 then interpolate (value (xs ! 0)) (value (xs ! 1)) 0
                         else interpolate (value (xs ! (j - 1))) (value (xs ! j)) 1)"
proof (cases j)
  case 0
  have m: "anchorTime parse (xs ! i) mod DAY_MS = 0" if "i < length xs" for i
    using mult that by (simp add: nth_mem)
  have "anchorTime parse (xs ! 0) < anchorTime parse (xs ! (0 + 1))"
    using len by (intro sorted_wrt_nth_less [OF strict]) auto
  moreover have "anchorTime parse (xs ! 0) mod DAY_MS = 0"
    "anchorTime parse (xs ! (0 + 1)) mod DAY_MS = 0"
    using len by (auto intro!: m)
  ultimately have "\<exists>p \<in> set (pairPoints parse isoDate xs 0).
           time p = anchorTime parse (xs ! 0)
           \<and> value p = interpolate (value (xs ! 0)) (value (xs ! (0 + 1))) 0"
    by (rule pairPoints_first)
  moreover have "set (pairPoints parse isoDate xs 0) \<subseteq> set (pairLoop parse isoDate xs 0)"
    using len by (intro pairLoop_contains) auto
  ultimately show ?thesis using 0 by auto
next
  case (Suc i)
  have i: "i + 1 < length xs" using j Suc by simp
  have "anchorTime parse (xs ! i) < anchorTime parse (xs ! (i + 1))"
    using i by (intro sorted_wrt_nth_less [OF strict]) auto
  moreover have "anchorTime parse (xs ! i) mod DAY_MS = 0"
    "anchorTime parse (xs ! (i + 1)) mod DAY_MS = 0"
    using mult i by simp_all
  ultimately have "\<exists>p \<in> set (pairPoints parse isoDate xs i).
           time p = anchorTime parse (xs ! (i + 1))
           \<and> value p = interpolate (value (xs ! i)) (value (xs ! (i + 1))) 1"
    by (rule pairPoints_last)
  moreover have "set (pairPoints parse isoDate xs i) \<subseteq> set (pairLoop parse isoDate xs 0)"
    using i by (intro pairLoop_contains) auto
  ultimately show ?thesis using Suc by auto
qed

lemma distinct_map_insort_key:
  "distinct (map f (insort_key f x xs)) = (f x \<notin> f ` set xs \<and> distinct (map f xs))"
  by (induction xs) (auto simp: set_insort_key)

lemma distinct_map_sort_key: "distinct (map f (sort_key f xs)) = distinct (map f xs)"
  by (induction xs) (simp_all add: distinct_map_insort_key)

lemma sorted_anchors_strict:
  assumes "distinct (map (anchorTime parse) as)"
  shows "sorted_wrt (\<lambda>x y. anchorTime parse x < anchorTime parse y)
           (sort_key (anchorTime parse) as)"
proof -
  have "sorted (map (anchorTime parse) (sort_key (anchorTime parse) as))"
    by (rule sorted_sort_key)
  moreover have "distinct (map (anchorTime parse) (sort_key (anchorTime parse) as))"
    using assms by (simp add: distinct_map_sort_key)
  ultimately have "sorted_wrt (<) (map (anchorTime parse) (sort_key (anchorTime parse) as))"
    by (simp add: strict_sorted_iff)
  then show ?thesis by (simp add: sorted_wrt_map)
qed

lemma strict_first_last:
  assumes strict: "sorted_wrt (\<lambda>x y. f x < f y) xs" and ne: "xs \<noteq> []"
  shows "f (xs ! 0) = Min (f ` set xs)" and "f (last xs) = Max (f ` set xs)"
proof -
  have lastnth: "last xs = xs ! (length xs - 1)" using ne by (rule last_conv_nth)
  have le0: "f (xs ! 0) \<le> f y" if y: "y \<in> set xs" for y
  proof -
    obtain j where j: "j < length xs" "y = xs ! j" using y by (auto simp: in_set_conv_nth)
    show ?thesis
    proof (cases j)
      case 0
      then show ?thesis using j by simp
    next
      case (Suc k)
      then have "f (xs ! 0) < f (xs ! j)" using j by (intro sorted_wrt_nth_less [OF strict]) auto
      then show ?thesis using j by simp
    qed
  qed
  have lel: "f y \<le> f (last xs)" if y: "y \<in> set xs" for y
  proof -
    obtain j where j: "j < length xs" "y = xs ! j" using y by (auto simp: in_set_conv_nth)
    show ?thesis
    proof (cases "j = length xs - 1")
      case True
      then show ?thesis using j lastnth by simp
    next
      case False
      then have "j < length xs - 1" using j by simp
      then have "f (xs ! j) < f (xs ! (length xs - 1))"
        using j by (intro sorted_wrt_nth_less [OF strict]) auto
      then show ?thesis using j lastnth by simp
    qed
  qed
  show "f (xs ! 0) = Min (f ` set xs)"
  proof (rule Min_eqI [symmetric])
    show "finite (f ` set xs)" by simp
    show "f (xs ! 0) \<le> z" if "z \<in> f ` set xs" for z using that le0 by auto
    show "f (xs ! 0) \<in> f ` set xs" using ne by (intro imageI nth_mem) auto
  qed
  show "f (last xs) = Max (f ` set xs)"
  proof (rule Max_eqI [symmetric])
    show "finite (f ` set xs)" by simp
    show "z \<le> f (last xs)" if "z \<in> f ` set xs" for z using that lel by auto
    show "f (last xs) \<in> f ` set xs" using ne by (intro imageI last_in_set)
  qed
qed

lemma build_unfold:
  assumes valid: "\<forall>a \<in> set as. \<exists>t. parse (date a) = Some t \<and> t mod DAY_MS = 0"
  shows "buildSeriesFromAnchors parse isoDate as
         = Some (if length as = 1
                 then [\<lparr>date = date (as ! 0), value = value (as ! 0),
                         time = anchorTime parse (as ! 0)\<rparr>]
                 else pairLoop parse isoDate (sort_key (anchorTime parse) as) 0)"
proof -
  have nn: "\<not> (\<exists>a \<in> set as. parse (date a) = None)" using valid by auto
  have single: "sort_key (anchorTime parse) as = as" if l1: "length as = 1"
  proof -
    obtain a where "as = [a]" using l1 by (cases as) auto
    then show ?thesis by simp
  qed
  show ?thesis
    unfolding buildSeriesFromAnchors_def Let_def using nn single by simp
qed

lemma valid_mult:
  assumes valid: "\<forall>a \<in> set as. \<exists>t. parse (date a) = Some t \<and> t mod DAY_MS = 0"
  shows "\<forall>a \<in> set (sort_key (anchorTime parse) as). anchorTime parse a mod DAY_MS = 0"
  using valid by (auto simp: anchorTime_def)

lemma daily_list_props:
  assumes n: "0 \<le> n"
  shows "\<forall>i. i + 1 < length (map (\<lambda>k. t0 + k * DAY_MS) [0..n])
           \<longrightarrow> map (\<lambda>k. t0 + k * DAY_MS) [0..n] ! (i + 1)
               - map (\<lambda>k. t0 + k * DAY_MS) [0..n] ! i = DAY_MS"
    and "sorted_wrt (<) (map (\<lambda>k. t0 + k * DAY_MS) [0..n])"
    and "hd (map (\<lambda>k. t0 + k * DAY_MS) [0..n]) = t0"
    and "last (map (\<lambda>k. t0 + k * DAY_MS) [0..n]) = t0 + n * DAY_MS"
proof -
  have pos: "0 < DAY_MS" by (simp add: DAY_MS_def)
  show "\<forall>i. i + 1 < length (map (\<lambda>k. t0 + k * DAY_MS) [0..n])
           \<longrightarrow> map (\<lambda>k. t0 + k * DAY_MS) [0..n] ! (i + 1)
               - map (\<lambda>k. t0 + k * DAY_MS) [0..n] ! i = DAY_MS"
    by (auto simp: algebra_simps)
  have "sorted_wrt (\<lambda>x y. t0 + x * DAY_MS < t0 + y * DAY_MS) [0..n]"
    using pos by (intro sorted_wrt_mono_rel [OF _ sorted_wrt_upto]) simp
  then show "sorted_wrt (<) (map (\<lambda>k. t0 + k * DAY_MS) [0..n])"
    by (simp add: sorted_wrt_map)
  have ne: "[0..n] \<noteq> []" using n by simp
  show "hd (map (\<lambda>k. t0 + k * DAY_MS) [0..n]) = t0"
    using n by (simp add: upto_rec1)
  show "last (map (\<lambda>k. t0 + k * DAY_MS) [0..n]) = t0 + n * DAY_MS"
    using n by (simp add: upto_rec2)
qed

lemma build_times:
  assumes ne: "as \<noteq> []"
    and valid: "\<forall>a \<in> set as. \<exists>t. parse (date a) = Some t \<and> t mod DAY_MS = 0"
    and dist: "distinct (map (anchorTime parse) as)"
  shows "\<exists>points. buildSeriesFromAnchors parse isoDate as = Some points
      \<and> map time points
          = map (\<lambda>k. Min (anchorTime parse ` set as) + k * DAY_MS)
              [0..(Max (anchorTime parse ` set as) - Min (anchorTime parse ` set as)) div DAY_MS]"
proof -
  define sx where "sx = sort_key (anchorTime parse) as"
  have strict: "sorted_wrt (\<lambda>x y. anchorTime parse x < anchorTime parse y) sx"
    unfolding sx_def using dist by (rule sorted_anchors_strict)
  have mult: "\<forall>a \<in> set sx. anchorTime parse a mod DAY_MS = 0"
    unfolding sx_def using valid by (rule valid_mult)
  have lsx: "length sx = length as" by (simp add: sx_def)
  have sne: "sx \<noteq> []" using ne lsx by auto
  have setsx: "set sx = set as" by (simp add: sx_def)
  have mn: "anchorTime parse (sx ! 0) = Min (anchorTime parse ` set as)"
    using strict_first_last(1) [OF strict sne] setsx by simp
  have mx: "anchorTime parse (last sx) = Max (anchorTime parse ` set as)"
    using strict_first_last(2) [OF strict sne] setsx by simp
  show ?thesis
  proof (cases "length as = 1")
    case True
    then obtain a where a: "as = [a]" by (cases as) auto
    show ?thesis unfolding build_unfold [OF valid] using a by simp
  next
    case False
    moreover have "length as \<noteq> 0" using ne by simp
    ultimately have "2 \<le> length sx" unfolding lsx by arith
    then have "map time (pairLoop parse isoDate sx 0)
             = map (\<lambda>d. anchorTime parse (sx ! 0) + d * DAY_MS)
                 [0..(anchorTime parse (last sx) - anchorTime parse (sx ! 0)) div DAY_MS]"
      by (rule pairLoop_times0 [OF strict mult])
    then show ?thesis
      unfolding build_unfold [OF valid] mn mx using False by (simp add: sx_def)
  qed
qed

lemma build_dates:
  assumes valid: "\<forall>a \<in> set as. \<exists>t. parse (date a) = Some t \<and> t mod DAY_MS = 0"
    and "length as \<noteq> 1"
    and "buildSeriesFromAnchors parse isoDate as = Some points"
    and "p \<in> set points"
  shows "date p = isoDate (time p)"
  using assms(2-) unfolding build_unfold [OF valid] by (auto dest: pairLoop_dates)

text \<open>Which instance of the interpolation formula gives the point at an anchor's date:
  ratio 0 for the first anchor of the sorted list, ratio 1 from the anchor before it for
  every other one; no other point has that time.\<close>

lemma anchor_point_formula:
  assumes ne: "as \<noteq> []"
    and valid: "\<forall>a \<in> set as. \<exists>t. parse (date a) = Some t \<and> t mod DAY_MS = 0"
    and dist: "distinct (map (anchorTime parse) as)"
    and many: "length as \<noteq> 1"
    and build: "buildSeriesFromAnchors parse isoDate as = Some points"
    and sx: "sx = sort_key (anchorTime parse) as"
    and j: "j < length as"
  shows "\<exists>p \<in> set points. time p = anchorTime parse (sx ! j)
           \<and> value p = (if j = 0 then interpolate (value (sx ! 0)) (value (sx ! 1)) 0
                         else interpolate (value (sx ! (j - 1))) (value (sx ! j)) 1)
           \<and> (\<forall>q \<in> set points. time q = time p \<longrightarrow> q = p)"
proof -
  have strict: "sorted_wrt (\<lambda>x y. anchorTime parse x < anchorTime parse y) sx"
    unfolding sx using dist by (rule sorted_anchors_strict)
  have mult: "\<forall>a \<in> set sx. anchorTime parse a mod DAY_MS = 0"
    unfolding sx using valid by (rule valid_mult)
  have lsx: "length sx = length as" by (simp add: sx)
  have "length as \<noteq> 0" using ne by simp
  then have len: "2 \<le> length sx" unfolding lsx using many by arith
  have jx: "j < length sx" using j lsx by simp
  have pts: "points = pairLoop parse isoDate sx 0"
    using build many unfolding build_unfold [OF valid] by (simp add: sx)
  obtain p where p: "p \<in> set points" "time p = anchorTime parse (sx ! j)"
    "value p = (if j = 0 then interpolate (value (sx ! 0)) (value (sx ! 1)) 0
                else interpolate (value (sx ! (j - 1))) (value (sx ! j)) 1)"
    using pairLoop_anchor [OF strict mult len jx, of isoDate] unfolding pts by blast
  have "map time points
          = map (\<lambda>k. Min (anchorTime parse ` set as) + k * DAY_MS)
              [0..(Max (anchorTime parse ` set as) - Min (anchorTime parse ` set as)) div DAY_MS]"
    using build_times [OF ne valid dist, of isoDate] build by auto
  moreover have pos: "0 < DAY_MS" by (simp add: DAY_MS_def)
  have "sorted_wrt (\<lambda>x y. Min (anchorTime parse ` set as) + x * DAY_MS
                            < Min (anchorTime parse ` set as) + y * DAY_MS)
          [0..(Max (anchorTime parse ` set as) - Min (anchorTime parse ` set as)) div DAY_MS]"
    using pos by (intro sorted_wrt_mono_rel [OF _ sorted_wrt_upto]) simp
  ultimately have "sorted_wrt (<) (map time points)"
    by (simp add: sorted_wrt_map)
  then have "distinct (map time points)" by (simp add: strict_sorted_iff)
  then have inj: "inj_on time (set points)" by (simp add: distinct_map)
  have "q = p" if q: "q \<in> set points" "time q = time p" for q
    using inj_onD [OF inj, of q p] q p(1) by simp
  then show ?thesis using p by blast
qed

lemma example_valid:
  "\<forall>a \<in> set [\<lparr>date = ''2024-01-11'', value = 2100\<rparr>, \<lparr>date = ''2024-01-01'', value = 2000\<rparr>].
     \<exists>t. exampleParse (date a) = Some t \<and> t mod DAY_MS = 0"
  by (simp add: exampleParse_def exampleDays_def DAY_MS_def)

lemma example_distinct:
  "distinct (map (anchorTime exampleParse)
     [\<lparr>date = ''2024-01-11'', value = 2100\<rparr>, \<lparr>date = ''2024-01-01'', value = 2000\<rparr>])"
  by (simp add: anchorTime_def exampleParse_def exampleDays_def)

text \<open>
  Claim C2. For a non-empty list of anchors whose dates parse to UTC midnights (multiples
  of \<open>DAY_MS\<close>) that are pairwise distinct, in any order, the densifier returns points
  whose times are exactly the days from the earliest to the latest anchor: they start at
  the earliest time, end at the latest, increase strictly, and consecutive times differ by
  exactly 86,400,000 ms. A single anchor gives exactly one point with the anchor's date and
  value; otherwise the date of every point is the formatted day of its time.
\<close>

theorem buildSeriesFromAnchors_daily:
  assumes ne: "as \<noteq> []"
    and valid: "\<forall>a \<in> set as. \<exists>t. parse (date a) = Some t \<and> t mod DAY_MS = 0"
    and dist: "distinct (map (anchorTime parse) as)"
  shows "\<exists>points. buildSeriesFromAnchors parse isoDate as = Some points
      \<and> map time points
          = map (\<lambda>k. Min (anchorTime parse ` set as) + k * DAY_MS)
              [0..(Max (anchorTime parse ` set as) - Min (anchorTime parse ` set as)) div DAY_MS]
      \<and> time (hd points) = Min (anchorTime parse ` set as)
      \<and> time (last points) = Max (anchorTime parse ` set as)
      \<and> sorted_wrt (<) (map time points)
      \<and> (\<forall>i. i + 1 < length points \<longrightarrow> time (points ! (i + 1)) - time (points ! i) = DAY_MS)
      \<and> (\<forall>a. as = [a]
            \<longrightarrow> points = [\<lparr>date = date a, value = value a, time = anchorTime parse a\<rparr>])
      \<and> (length as \<noteq> 1 \<longrightarrow> (\<forall>p \<in> set points. date p = isoDate (time p)))"
proof -
  define t0 where "t0 = Min (anchorTime parse ` set as)"
  define t1 where "t1 = Max (anchorTime parse ` set as)"
  define n where "n = (t1 - t0) div DAY_MS"
  obtain points where build: "buildSeriesFromAnchors parse isoDate as = Some points"
    and times: "map time points = map (\<lambda>k. t0 + k * DAY_MS) [0..n]"
    using build_times [OF ne valid dist, of isoDate] unfolding t0_def t1_def n_def by blast
  have pos: "0 < DAY_MS" by (simp add: DAY_MS_def)
  have fin: "finite (anchorTime parse ` set as)" and nonempty: "anchorTime parse ` set as \<noteq> {}"
    using ne by simp_all
  have "t0 \<in> anchorTime parse ` set as" unfolding t0_def using fin nonempty by (rule Min_in)
  then have m0: "t0 mod DAY_MS = 0" using valid by (auto simp: anchorTime_def)
  have t1in: "t1 \<in> anchorTime parse ` set as"
    unfolding t1_def using fin nonempty by (rule Max_in)
  then have m1: "t1 mod DAY_MS = 0" using valid by (auto simp: anchorTime_def)
  have le: "t0 \<le> t1" unfolding t0_def using fin t1in by (rule Min_le)
  have n0: "0 \<le> n" unfolding n_def using le pos by (simp add: pos_imp_zdiv_nonneg_iff)
  have "(t1 - t0) mod DAY_MS = 0" using m0 m1 by (simp add: mod_diff_eq [symmetric])
  then have "n * DAY_MS = t1 - t0" unfolding n_def by (simp add: mod_eq_0_iff_dvd)
  then have end1: "t0 + n * DAY_MS = t1" by simp
  have pne: "points \<noteq> []"
  proof
    assume "points = []"
    then have "map (\<lambda>k. t0 + k * DAY_MS) [0..n] = []" using times by simp
    then show False using n0 by simp
  qed
  have hd0: "time (hd points) = t0"
    using daily_list_props(3) [OF n0, of t0] pne unfolding times [symmetric] by (simp add: hd_map)
  have last1: "time (last points) = t1"
    using daily_list_props(4) [OF n0, of t0] pne end1 unfolding times [symmetric]
    by (simp add: last_map)
  have srt: "sorted_wrt (<) (map time points)"
    unfolding times using n0 by (rule daily_list_props(2))
  have diffs: "\<forall>i. i + 1 < length points \<longrightarrow> time (points ! (i + 1)) - time (points ! i) = DAY_MS"
  proof (intro allI impI)
    fix i assume i: "i + 1 < length points"
    then have "map time points ! (i + 1) - map time points ! i = DAY_MS"
      using daily_list_props(1) [OF n0, of t0] unfolding times [symmetric] by simp
    then show "time (points ! (i + 1)) - time (points ! i) = DAY_MS" using i by simp
  qed
  have single: "\<forall>a. as = [a]
            \<longrightarrow> points = [\<lparr>date = date a, value = value a, time = anchorTime parse a\<rparr>]"
    using build unfolding build_unfold [OF valid] by auto
  have dates: "length as \<noteq> 1 \<longrightarrow> (\<forall>p \<in> set points. date p = isoDate (time p))"
    using build_dates [OF valid _ build] by blast
  show ?thesis
    unfolding t0_def [symmetric] t1_def [symmetric] n_def [symmetric]
    by (intro exI [of _ points] conjI build times hd0 last1 srt diffs single dates)
qed

theorem buildSeriesFromAnchors_daily_witness:
  "\<exists>points. buildSeriesFromAnchors exampleParse exampleIso
       [\<lparr>date = ''2024-01-11'', value = 2100\<rparr>, \<lparr>date = ''2024-01-01'', value = 2000\<rparr>]
       = Some points
     \<and> map time points = map (\<lambda>k. 1704067200000 + k * 86400000) [0..10]
     \<and> time (hd points) = 1704067200000 \<and> time (last points) = 1704931200000"
proof -
  have mn: "Min (anchorTime exampleParse `
              set [\<lparr>date = ''2024-01-11'', value = 2100\<rparr>, \<lparr>date = ''2024-01-01'', value = 2000\<rparr>])
            = 1704067200000"
    by (simp add: anchorTime_def exampleParse_def exampleDays_def)
  have mx: "Max (anchorTime exampleParse `
              set [\<lparr>date = ''2024-01-11'', value = 2100\<rparr>, \<lparr>date = ''2024-01-01'', value = 2000\<rparr>])
            = 1704931200000"
    by (simp add: anchorTime_def exampleParse_def exampleDays_def)
  have dv: "(1704931200000 - 1704067200000) div DAY_MS = 10" by (simp add: DAY_MS_def)
  have d: "DAY_MS = 86400000" by (simp add: DAY_MS_def)
  show ?thesis
    using buildSeriesFromAnchors_daily [OF _ example_valid example_distinct, of exampleIso]
    unfolding mn mx dv d by auto
qed

text \<open>
  Claim C7 asks that the point at each anchor's date has exactly the anchor's value, the
  formula returning the start value at ratio 0 and the end value at ratio 1. In doubles the
  formula returns the start value at ratio 0, and at ratio 1 it returns the rounded sum of
  the start value and the rounded difference, which need not be the end value: for the
  anchors 1500.79 on 2024-01-01 and 457.21 on 2024-01-02 the densifier emits for
  2024-01-02 the double just above 457.21, that is 457.21000000000004.
\<close>

theorem buildSeriesFromAnchors_double_end_anchor:
  "buildSeriesFromAnchors_double exampleParse exampleIso
     [\<lparr>date = ''2024-01-01'', value = toDouble 1500.79\<rparr>,
      \<lparr>date = ''2024-01-02'', value = toDouble 457.21\<rparr>]
   = Some [\<lparr>date = ''2024-01-01'', value = toDouble 1500.79, time = 1704067200000\<rparr>,
           \<lparr>date = ''2024-01-02'', value = toDouble 457.21 + 1 / 2 ^ 44, time = 1704153600000\<rparr>]
   \<and> interpolate_double (toDouble 1500.79) (toDouble 457.21) 1 = toDouble 457.21 + 1 / 2 ^ 44
   \<and> interpolate_double (toDouble 1500.79) (toDouble 457.21) 1 \<noteq> toDouble 457.21
   \<and> interpolate_double startValue endValue 0 = toDouble startValue"
proof -
  define vs :: real where "vs = toDouble 1500.79"
  define ve :: real where "ve = toDouble 457.21"
  have vs: "vs = 1650136055849943 / 1099511627776"
    unfolding vs_def by (rule double_1500)
  have ve: "ve = 8043323381367439 / 17592186044416"
    unfolding ve_def by (rule double_457)
  have diff: "dsub ve vs = - (573714172257239 / 549755813888)"
    unfolding vs ve by code_simp
  have prod1: "dmul (- (573714172257239 / 549755813888)) 1 = - (573714172257239 / 549755813888)"
    by code_simp
  have sum1: "dadd (1650136055849943 / 1099511627776) (- (573714172257239 / 549755813888))
              = 502707711335465 / 1099511627776"
    by code_simp
  have e1: "interpolate_double vs ve 1 = 502707711335465 / 1099511627776"
    unfolding interpolate_double_def diff prod1 unfolding vs sum1 by (rule refl)
  have a: "interpolate_double vs ve 1 = ve + 1 / 2 ^ 44"
    unfolding e1 unfolding ve by simp
  have b: "interpolate_double vs ve 1 \<noteq> ve"
    unfolding a by simp
  have z: "toDouble 0 = 0"
    by (simp add: toDouble_def)
  have c: "interpolate_double startValue endValue 0 = toDouble startValue" for startValue endValue
    by (simp add: interpolate_double_def dadd_def dmul_def z)
  have one: "ddiv 1 1 = 1"
    by code_simp
  have zero: "ddiv 0 1 = 0"
    by code_simp
  have idem: "toDouble vs = vs"
    unfolding vs by code_simp
  have dspan: "max 1 (Math_round (ddiv (real_of_int (1704153600000 - 1704067200000))
                  (real_of_int DAY_MS))) = 1"
    unfolding DAY_MS_def by code_simp
  have t0: "anchorTime exampleParse \<lparr>date = ''2024-01-01'', value = vs\<rparr> = 1704067200000"
    and t1: "anchorTime exampleParse \<lparr>date = ''2024-01-02'', value = ve\<rparr> = 1704153600000"
    by (simp_all add: anchorTime_def exampleParse_def exampleDays_def)
  have p0: "exampleParse ''2024-01-01'' = Some 1704067200000"
    and p1: "exampleParse ''2024-01-02'' = Some 1704153600000"
    by (simp_all add: exampleParse_def exampleDays_def)
  have d0: "exampleIso 1704067200000 = ''2024-01-01''"
    and d1: "exampleIso 1704153600000 = ''2024-01-02''"
    by (simp_all add: exampleIso_def exampleDays_def)
  have loop: "dayLoop_double exampleIso 0
        \<lparr>date = ''2024-01-01'', value = vs\<rparr>
        \<lparr>date = ''2024-01-02'', value = ve\<rparr> 1704067200000 1 0
      = [\<lparr>date = ''2024-01-01'', value = vs, time = 1704067200000\<rparr>,
         \<lparr>date = ''2024-01-02'', value = ve + 1 / 2 ^ 44, time = 1704153600000\<rparr>]"
    apply (subst dayLoop_double.simps)
    apply (simp add: Let_def zero c idem d0)
    apply (subst dayLoop_double.simps)
    apply (simp add: Let_def one a DAY_MS_def d1)
    apply (subst dayLoop_double.simps)
    apply simp
    done
  have pair: "pairPoints_double exampleParse exampleIso
        [\<lparr>date = ''2024-01-01'', value = vs\<rparr>, \<lparr>date = ''2024-01-02'', value = ve\<rparr>] 0
      = [\<lparr>date = ''2024-01-01'', value = vs, time = 1704067200000\<rparr>,
         \<lparr>date = ''2024-01-02'', value = ve + 1 / 2 ^ 44, time = 1704153600000\<rparr>]"
    unfolding pairPoints_double_def Let_def
    by (simp only: nth_Cons_0 nth_Cons_Suc One_nat_def add_0 t0 t1 dspan loop)
  have build: "buildSeriesFromAnchors_double exampleParse exampleIso
       [\<lparr>date = ''2024-01-01'', value = vs\<rparr>, \<lparr>date = ''2024-01-02'', value = ve\<rparr>]
     = Some [\<lparr>date = ''2024-01-01'', value = vs, time = 1704067200000\<rparr>,
             \<lparr>date = ''2024-01-02'', value = ve + 1 / 2 ^ 44, time = 1704153600000\<rparr>]"
    unfolding buildSeriesFromAnchors_double_def
    apply (simp add: Let_def t0 t1 p0 p1)
    apply (subst pairLoop_double.simps)
    apply (subst pairLoop_double.simps)
    apply (simp add: pair)
    done
  show ?thesis
    using build a b c unfolding vs_def ve_def by blast
qed

subsection \<open>The assembler\<close>

lemma sliceRange_nonempty: "points \<noteq> [] \<Longrightarrow> sliceRange points rangeCfg latestP \<noteq> []"
  by (cases "kind rangeCfg") (simp_all add: sliceRange_def Let_def)

lemma sliceRange_subset: "set (sliceRange points rangeCfg latestP) \<subseteq> set points"
  by (cases "kind rangeCfg") (auto simp: sliceRange_def Let_def)

lemma toUnitPoint_value: "value (toUnitPoint u p) = convertPrice (value p) u"
  by (simp add: toUnitPoint_def unitMultiplier_def convertPrice_def)

lemma getGoldData_eq:
  assumes build: "buildSeriesFromAnchors parse isoDate (anchors parsed) = Some series"
    and ne: "series \<noteq> []"
  shows "\<exists>us sl lu. getGoldData parse isoDate parsed rangeCfg u = Some (Inr
      \<lparr>latest = toUnitPoint u (last series), rangeConfig = rangeCfg, unit = u,
       unitSuffix = us, sourceLabel = sl,
       rangePoints = sliceRange (map (toUnitPoint u) series) rangeCfg (toUnitPoint u (last series)),
       rangeStats =
         (case computeHighLow
                 (sliceRange (map (toUnitPoint u) series) rangeCfg (toUnitPoint u (last series))) of
            Some st \<Rightarrow> st
          | None \<Rightarrow> \<lparr>low = value (toUnitPoint u (last series)),
                      high = value (toUnitPoint u (last series))\<rparr>),
       yearStats =
         (case computeHighLow (sliceRange (map (toUnitPoint u) series)
                                (recentRange\<lparr>days := Some 365\<rparr>) (toUnitPoint u (last series))) of
            Some st \<Rightarrow> st
          | None \<Rightarrow>
              (case computeHighLow
                      (sliceRange (map (toUnitPoint u) series) rangeCfg
                         (toUnitPoint u (last series))) of
                 Some st \<Rightarrow> st
               | None \<Rightarrow> \<lparr>low = value (toUnitPoint u (last series)),
                           high = value (toUnitPoint u (last series))\<rparr>)),
       lastUpdated = lu,
       changes = \<lparr>day1 = computeChange (map (toUnitPoint u) series) 1,
                  day7 = computeChange (map (toUnitPoint u) series) 7,
                  day30 = computeChange (map (toUnitPoint u) series) 30\<rparr>,
       pointsCount = length (sliceRange (map (toUnitPoint u) series) rangeCfg
                               (toUnitPoint u (last series)))\<rparr>)"
proof -
  have an: "anchors parsed \<noteq> []"
  proof
    assume "anchors parsed = []"
    then have "buildSeriesFromAnchors parse isoDate (anchors parsed) = Some []"
      by (simp add: buildSeriesFromAnchors_def pairLoop.simps)
    then show False using build ne by simp
  qed
  have l2: "series ! (length series - Suc 0) = last series"
    using ne by (simp add: last_conv_nth)
  have load: "\<exists>sf. loadSeriesFile parsed = Inr sf \<and> anchors sf = anchors parsed"
    using an by (simp add: loadSeriesFile_def)
  then obtain sf where sf: "loadSeriesFile parsed = Inr sf" "anchors sf = anchors parsed"
    by blast
  show ?thesis
    using ne by (simp add: getGoldData_def sf build Let_def l2 cong: option.case_cong)
qed

lemma getGoldData_unfold:
  assumes build: "buildSeriesFromAnchors parse isoDate (anchors parsed) = Some series"
    and ne: "series \<noteq> []"
  shows "\<exists>d. getGoldData parse isoDate parsed rangeCfg u = Some (Inr d)
      \<and> changes d = \<lparr>day1 = computeChange (map (toUnitPoint u) series) 1,
                      day7 = computeChange (map (toUnitPoint u) series) 7,
                      day30 = computeChange (map (toUnitPoint u) series) 30\<rparr>
      \<and> rangePoints d
          = sliceRange (map (toUnitPoint u) series) rangeCfg (toUnitPoint u (last series))
      \<and> rangeStats d
          = (case computeHighLow (rangePoints d) of
               Some st \<Rightarrow> st
             | None \<Rightarrow> \<lparr>low = value (toUnitPoint u (last series)),
                         high = value (toUnitPoint u (last series))\<rparr>)
      \<and> yearStats d
          = (case computeHighLow (sliceRange (map (toUnitPoint u) series)
                                   (recentRange\<lparr>days := Some 365\<rparr>) (toUnitPoint u (last series))) of
               Some st \<Rightarrow> st
             | None \<Rightarrow> rangeStats d)
      \<and> latest d = toUnitPoint u (last series)
      \<and> pointsCount d = length (rangePoints d)"
proof -
  obtain us sl lu d where d: "getGoldData parse isoDate parsed rangeCfg u = Some (Inr d)"
    and deq: "d = \<lparr>latest = toUnitPoint u (last series), rangeConfig = rangeCfg, unit = u,
       unitSuffix = us, sourceLabel = sl,
       rangePoints = sliceRange (map (toUnitPoint u) series) rangeCfg (toUnitPoint u (last series)),
       rangeStats =
         (case computeHighLow
                 (sliceRange (map (toUnitPoint u) series) rangeCfg (toUnitPoint u (last series))) of
            Some st \<Rightarrow> st
          | None \<Rightarrow> \<lparr>low = value (toUnitPoint u (last series)),
                      high = value (toUnitPoint u (last series))\<rparr>),
       yearStats =
         (case computeHighLow (sliceRange (map (toUnitPoint u) series)
                                (recentRange\<lparr>days := Some 365\<rparr>) (toUnitPoint u (last series))) of
            Some st \<Rightarrow> st
          | None \<Rightarrow>
              (case computeHighLow
                      (sliceRange (map (toUnitPoint u) series) rangeCfg
                         (toUnitPoint u (last series))) of
                 Some st \<Rightarrow> st
               | None \<Rightarrow> \<lparr>low = value (toUnitPoint u (last series)),
                           high = value (toUnitPoint u (last series))\<rparr>)),
       lastUpdated = lu,
       changes = \<lparr>day1 = computeChange (map (toUnitPoint u) series) 1,
                  day7 = computeChange (map (toUnitPoint u) series) 7,
                  day30 = computeChange (map (toUnitPoint u) series) 30\<rparr>,
       pointsCount = length (sliceRange (map (toUnitPoint u) series) rangeCfg
                               (toUnitPoint u (last series)))\<rparr>"
    using getGoldData_eq [OF build ne, of rangeCfg u] by blast
  show ?thesis
    unfolding d by (rule exI [of _ d]) (simp add: deq cong: option.case_cong)
qed

lemma getGoldData_inverse:
  assumes ok: "getGoldData parse isoDate parsed rangeCfg u = Some (Inr d)"
  shows "\<exists>series. buildSeriesFromAnchors parse isoDate (anchors parsed) = Some series
           \<and> series \<noteq> []"
  using ok
  by (auto simp: getGoldData_def loadSeriesFile_def Let_def
      split: if_splits option.splits sum.splits)

text \<open>
  Claim C5. Whenever \<open>getGoldData\<close> returns a view for a range and a unit, the densified
  series is non-empty and: the three changes are \<open>computeChange\<close> of the complete
  unit-converted series for 1, 7 and 30 days; every other range request on the same file
  and unit succeeds with the same changes, so they do not depend on the range slice; the
  range points are the slice of the converted series, a non-empty list of converted points;
  the range statistics are the minimum and maximum of the values of those converted points,
  the year statistics those of the converted 365-day slice; and the converted value of a
  point is its per-ounce value in the requested unit.
\<close>

theorem getGoldData_changes_and_stats:
  assumes ok: "getGoldData parse isoDate parsed rangeCfg u = Some (Inr d)"
  shows "\<exists>series. buildSeriesFromAnchors parse isoDate (anchors parsed) = Some series
      \<and> series \<noteq> []
      \<and> changes d = \<lparr>day1 = computeChange (map (toUnitPoint u) series) 1,
                      day7 = computeChange (map (toUnitPoint u) series) 7,
                      day30 = computeChange (map (toUnitPoint u) series) 30\<rparr>
      \<and> (\<forall>r. \<exists>d'. getGoldData parse isoDate parsed r u = Some (Inr d')
                  \<and> changes d' = changes d)
      \<and> rangePoints d
          = sliceRange (map (toUnitPoint u) series) rangeCfg (toUnitPoint u (last series))
      \<and> rangePoints d \<noteq> []
      \<and> set (rangePoints d) \<subseteq> toUnitPoint u ` set series
      \<and> rangeStats d = \<lparr>low = Min (value ` set (rangePoints d)),
                         high = Max (value ` set (rangePoints d))\<rparr>
      \<and> yearStats d
          = \<lparr>low = Min (value ` set (sliceRange (map (toUnitPoint u) series)
                        (recentRange\<lparr>days := Some 365\<rparr>) (toUnitPoint u (last series)))),
             high = Max (value ` set (sliceRange (map (toUnitPoint u) series)
                        (recentRange\<lparr>days := Some 365\<rparr>) (toUnitPoint u (last series))))\<rparr>
      \<and> (\<forall>p \<in> set series. value (toUnitPoint u p) = convertPrice (value p) u)"
proof -
  obtain series where build: "buildSeriesFromAnchors parse isoDate (anchors parsed) = Some series"
    and ne: "series \<noteq> []"
    using getGoldData_inverse [OF ok] by blast
  have pne: "map (toUnitPoint u) series \<noteq> []" using ne by simp
  obtain d0 where d0: "getGoldData parse isoDate parsed rangeCfg u = Some (Inr d0)"
    and ch: "changes d0 = \<lparr>day1 = computeChange (map (toUnitPoint u) series) 1,
                      day7 = computeChange (map (toUnitPoint u) series) 7,
                      day30 = computeChange (map (toUnitPoint u) series) 30\<rparr>"
    and rp: "rangePoints d0
          = sliceRange (map (toUnitPoint u) series) rangeCfg (toUnitPoint u (last series))"
    and rs: "rangeStats d0
          = (case computeHighLow (rangePoints d0) of
               Some st \<Rightarrow> st
             | None \<Rightarrow> \<lparr>low = value (toUnitPoint u (last series)),
                         high = value (toUnitPoint u (last series))\<rparr>)"
    and ys: "yearStats d0
          = (case computeHighLow (sliceRange (map (toUnitPoint u) series)
                                   (recentRange\<lparr>days := Some 365\<rparr>) (toUnitPoint u (last series))) of
               Some st \<Rightarrow> st
             | None \<Rightarrow> rangeStats d0)"
    using getGoldData_unfold [OF build ne, of rangeCfg u] by blast
  have dd: "d0 = d" using d0 ok by simp
  have rne: "rangePoints d \<noteq> []"
    unfolding dd [symmetric] rp using pne by (rule sliceRange_nonempty)
  have sub: "set (rangePoints d) \<subseteq> toUnitPoint u ` set series"
    unfolding dd [symmetric] rp using sliceRange_subset [of "map (toUnitPoint u) series"] by simp
  have rstats: "rangeStats d = \<lparr>low = Min (value ` set (rangePoints d)),
                         high = Max (value ` set (rangePoints d))\<rparr>"
    using rs computeHighLow_nonempty [OF rne] unfolding dd by simp
  have yne: "sliceRange (map (toUnitPoint u) series)
               (recentRange\<lparr>days := Some 365\<rparr>) (toUnitPoint u (last series)) \<noteq> []"
    using pne by (rule sliceRange_nonempty)
  have ystats: "yearStats d
          = \<lparr>low = Min (value ` set (sliceRange (map (toUnitPoint u) series)
                        (recentRange\<lparr>days := Some 365\<rparr>) (toUnitPoint u (last series)))),
             high = Max (value ` set (sliceRange (map (toUnitPoint u) series)
                        (recentRange\<lparr>days := Some 365\<rparr>) (toUnitPoint u (last series))))\<rparr>"
    using ys computeHighLow_nonempty [OF yne] unfolding dd by simp
  have indep: "\<forall>r. \<exists>d'. getGoldData parse isoDate parsed r u = Some (Inr d')
                  \<and> changes d' = changes d"
  proof
    fix r
    obtain d' where "getGoldData parse isoDate parsed r u = Some (Inr d')"
      and "changes d' = \<lparr>day1 = computeChange (map (toUnitPoint u) series) 1,
                      day7 = computeChange (map (toUnitPoint u) series) 7,
                      day30 = computeChange (map (toUnitPoint u) series) 30\<rparr>"
      using getGoldData_unfold [OF build ne, of r u] by blast
    then show "\<exists>d'. getGoldData parse isoDate parsed r u = Some (Inr d')
                  \<and> changes d' = changes d"
      using ch dd by auto
  qed
  have conv: "\<forall>p \<in> set series. value (toUnitPoint u p) = convertPrice (value p) u"
    by (simp add: toUnitPoint_value)
  show ?thesis
    using build ne ch [unfolded dd] indep rp [unfolded dd] rne sub rstats ystats conv
    by blast
qed

text \<open>The worked example: a five-day range on the eleven-day series keeps the last six
  points, and the seven-day change is still reported.\<close>

lemma example_getGoldData:
  "getGoldData exampleParse exampleIso exampleFile (recentRange\<lparr>days := Some 5\<rparr>) ''oz''
   = Some (Inr \<lparr>latest = \<lparr>date = ''2024-01-11'', value = 2100, time = 1704931200000\<rparr>,
          rangeConfig = recentRange\<lparr>days := Some 5\<rparr>,
          unit = ''oz'', unitSuffix = ''USD/oz'',
          sourceLabel = ''snapshot'',
          rangePoints =
            [\<lparr>date = ''2024-01-06'', value = 2050, time = 1704499200000\<rparr>,
             \<lparr>date = ''2024-01-07'', value = 2060, time = 1704585600000\<rparr>,
             \<lparr>date = ''2024-01-08'', value = 2070, time = 1704672000000\<rparr>,
             \<lparr>date = ''2024-01-09'', value = 2080, time = 1704758400000\<rparr>,
             \<lparr>date = ''2024-01-10'', value = 2090, time = 1704844800000\<rparr>,
             \<lparr>date = ''2024-01-11'', value = 2100, time = 1704931200000\<rparr>],
          rangeStats = \<lparr>low = 2050, high = 2100\<rparr>,
          yearStats = \<lparr>low = 2000, high = 2100\<rparr>,
          lastUpdated = ''2024-01-11'',
          changes =
            \<lparr>day1 = Some (Finite (1 / 209)), day7 = Some (Finite (1 / 29)),
               day30 = None\<rparr>,
          pointsCount = 6\<rparr>)"
  by code_simp

theorem getGoldData_changes_and_stats_witness:
  "\<exists>d d'.
     getGoldData exampleParse exampleIso exampleFile (recentRange\<lparr>days := Some 5\<rparr>) ''oz''
       = Some (Inr d)
     \<and> getGoldData exampleParse exampleIso exampleFile
         \<lparr>key = ''month-2024-01'', label = ''January 2024'', kind = KindMonth,
          days = None, year = Some ''2024'', month = Some ''01''\<rparr> ''oz''
       = Some (Inr d')
     \<and> changes d' = changes d
     \<and> day7 (changes d) = Some (Finite (1 / 29))
     \<and> length (rangePoints d) = 6
     \<and> computeChange (rangePoints d) 7 = None
     \<and> rangeStats d = \<lparr>low = 2050, high = 2100\<rparr>"
proof -
  define d where "d = \<lparr>latest = \<lparr>date = ''2024-01-11'', value = 2100, time = 1704931200000\<rparr>,
          rangeConfig = recentRange\<lparr>days := Some 5\<rparr>,
          unit = ''oz'', unitSuffix = ''USD/oz'',
          sourceLabel = ''snapshot'',
          rangePoints =
            [\<lparr>date = ''2024-01-06'', value = 2050, time = 1704499200000\<rparr>,
             \<lparr>date = ''2024-01-07'', value = 2060, time = 1704585600000\<rparr>,
             \<lparr>date = ''2024-01-08'', value = 2070, time = 1704672000000\<rparr>,
             \<lparr>date = ''2024-01-09'', value = 2080, time = 1704758400000\<rparr>,
             \<lparr>date = ''2024-01-10'', value = 2090, time = 1704844800000\<rparr>,
             \<lparr>date = ''2024-01-11'', value = 2100, time = 1704931200000\<rparr>],
          rangeStats = \<lparr>low = 2050, high = 2100\<rparr>,
          yearStats = \<lparr>low = 2000, high = 2100\<rparr>,
          lastUpdated = ''2024-01-11'',
          changes =
            \<lparr>day1 = Some (Finite (1 / 209)), day7 = Some (Finite (1 / 29)),
               day30 = None\<rparr>,
          pointsCount = 6\<rparr>"
  have ev: "getGoldData exampleParse exampleIso exampleFile (recentRange\<lparr>days := Some 5\<rparr>) ''oz''
             = Some (Inr d)"
    unfolding d_def by (rule example_getGoldData)
  have "\<forall>r. \<exists>d'. getGoldData exampleParse exampleIso exampleFile r ''oz'' = Some (Inr d')
                  \<and> changes d' = changes d"
    using getGoldData_changes_and_stats [OF ev] by blast
  then obtain d' where d':
    "getGoldData exampleParse exampleIso exampleFile
         \<lparr>key = ''month-2024-01'', label = ''January 2024'', kind = KindMonth,
          days = None, year = Some ''2024'', month = Some ''01''\<rparr> ''oz''
       = Some (Inr d')"
    "changes d' = changes d"
    by blast
  have c7: "day7 (changes d) = Some (Finite (1 / 29))" by (simp add: d_def)
  have l6: "length (rangePoints d) = 6" by (simp add: d_def)
  have none: "computeChange (rangePoints d) 7 = None"
    by (simp add: d_def computeChange_def DAY_MS_def Let_def eval_nat_numeral)
  have rs: "rangeStats d = \<lparr>low = 2050, high = 2100\<rparr>" by (simp add: d_def)
  show ?thesis
    by (intro exI [of _ d] exI [of _ d'] conjI ev d' c7 l6 none rs)
qed

end
